theory Spec2Isabelle
  imports Main "HOL-Library.AList" "HOL-Library.Sublist"
begin

section \<open>The copy-external plugin: one-way mirroring of a vault into a target directory\<close>

text \<open>
  \<^verbatim>\<open>src/main.ts\<close> holds two revisions of the plugin; the embedding follows the later one
  (the class with \<^verbatim>\<open>syncExistingFiles\<close>, \<^verbatim>\<open>safeStat\<close>, \<^verbatim>\<open>ensureTargetPath\<close> and the four
  notification toggles). The plugin's own methods are translated one by one. What they call
  in the platform (\<^verbatim>\<open>String.prototype.replace\<close>, Node's \<^verbatim>\<open>path\<close> and \<^verbatim>\<open>fs/promises\<close>, the
  vault adapter, \<^verbatim>\<open>console\<close> and \<^verbatim>\<open>Notice\<close>) is modelled in the first three subsections:
  a POSIX file tree without symbolic links, whose working directory is the root of the tree,
  with time stamps in milliseconds taken from a clock in the state. The clock stands still
  during one operation; between two operations it may take any value.
\<close>

subsection \<open>Strings: \<^verbatim>\<open>String.prototype.replace\<close> with a string pattern\<close>

type_synonym bytes = string

text \<open>
  \<^verbatim>\<open>str.replace(pattern, replacement)\<close> with two strings replaces the first occurrence of the
  pattern only, and expands the replacement as a template: \<^verbatim>\<open>$$\<close> is a dollar sign,
  \<^verbatim>\<open>$&\<close> the matched text, \<^verbatim>\<open>$`\<close> the text before the match, \<^verbatim>\<open>$'\<close> the text after it.
  A string pattern has no capture groups, so \<^verbatim>\<open>$1\<close> and \<^verbatim>\<open>$<name>\<close> stay as they are.
\<close>

fun indexOf :: "string \<Rightarrow> string \<Rightarrow> (string \<times> string) option" where
  "indexOf pat [] = (if pat = [] then Some ([], []) else None)"
| "indexOf pat (c # cs) =
     (if prefix pat (c # cs) then Some ([], drop (length pat) (c # cs))
      else (case indexOf pat cs of
              None \<Rightarrow> None
            | Some (front, back) \<Rightarrow> Some (c # front, back)))"

fun getSubstitution :: "string \<Rightarrow> string \<Rightarrow> string \<Rightarrow> string \<Rightarrow> string" where
  "getSubstitution matched front back [] = []"
| "getSubstitution matched front back [c] = [c]"
| "getSubstitution matched front back (c # d # r) =
     (if c = CHR ''$'' then
        (if d = CHR ''$'' then CHR ''$'' # getSubstitution matched front back r
         else if d = CHR ''&'' then matched @ getSubstitution matched front back r
         else if d = CHR 0x60 then front @ getSubstitution matched front back r
         else if d = CHR 0x27 then back @ getSubstitution matched front back r
         else c # getSubstitution matched front back (d # r))
      else c # getSubstitution matched front back (d # r))"

definition replace :: "string \<Rightarrow> string \<Rightarrow> string \<Rightarrow> string" where
  "replace str pat replacement =
     (case indexOf pat str of
        None \<Rightarrow> str
      | Some (front, back) \<Rightarrow>
          front @ getSubstitution pat front back replacement @ back)"

definition quote :: "string \<Rightarrow> string" where
  "quote x = CHR 0x27 # x @ [CHR 0x27]"

fun digits :: "nat \<Rightarrow> string" where
  "digits n =
     (if n < 10 then [char_of (48 + n)]
      else digits (n div 10) @ [char_of (48 + n mod 10)])"

subsection \<open>Paths: \<^verbatim>\<open>path.join\<close> and \<^verbatim>\<open>path.dirname\<close>\<close>

text \<open>
  A path string denotes the list of its components below the root of the tree, after the
  lexical normalisation that \<^verbatim>\<open>path.join\<close> performs: empty components and \<^verbatim>\<open>.\<close> are dropped,
  \<^verbatim>\<open>..\<close> removes the component before it. The joined paths of the plugin are kept in this
  form; \<^verbatim>\<open>path.dirname\<close> of a normalised path drops its last component. The configured
  root is resolved the same way when it is given to \<^verbatim>\<open>stat\<close>: the kernel would differ only
  for a root with \<^verbatim>\<open>..\<close> behind a component that is missing or not a directory. In
  messages a path is shown in its resolved form, with a leading slash.
\<close>

type_synonym abspath = "string list"

fun split_path :: "string \<Rightarrow> string list" where
  "split_path [] = [[]]"
| "split_path (c # cs) =
     (if c = CHR ''/'' then [] # split_path cs
      else (case split_path cs of
              [] \<Rightarrow> [[c]]
            | x # xs \<Rightarrow> (c # x) # xs))"

definition normalizeStep :: "string \<Rightarrow> string list \<Rightarrow> string list" where
  "normalizeStep c stack =
     (if c = [] \<or> c = ''.'' then stack
      else if c = ''..'' then (case stack of [] \<Rightarrow> [] | _ # rest \<Rightarrow> rest)
      else c # stack)"

definition normalizeString :: "string list \<Rightarrow> abspath" where
  "normalizeString comps = rev (fold normalizeStep comps [])"

definition path_resolve :: "string \<Rightarrow> abspath" where
  "path_resolve p = normalizeString (split_path p)"

definition path_join :: "string \<Rightarrow> string \<Rightarrow> abspath" where
  "path_join a b = normalizeString (split_path a @ split_path b)"

definition path_dirname :: "abspath \<Rightarrow> abspath" where
  "path_dirname p = butlast p"

definition render :: "abspath \<Rightarrow> string" where
  "render p = (if p = [] then ''/'' else concat (map (\<lambda>c. CHR ''/'' # c) p))"

subsection \<open>The target file system: \<^verbatim>\<open>fs/promises\<close>\<close>

datatype errno = ENOENT | ENOTDIR | EEXIST | EISDIR | ENOTEMPTY | EINVAL | EBUSY

datatype node = File bytes nat | Dir nat "(string \<times> node) list"

fun is_Dir :: "node \<Rightarrow> bool" where
  "is_Dir (Dir _ _) = True"
| "is_Dir (File _ _) = False"

fun node_mtime :: "node \<Rightarrow> nat" where
  "node_mtime (Dir mt _) = mt"
| "node_mtime (File _ mt) = mt"

fun lookup_node :: "node \<Rightarrow> abspath \<Rightarrow> errno + node" where
  "lookup_node n [] = Inr n"
| "lookup_node (File _ _) (c # cs) = Inl ENOTDIR"
| "lookup_node (Dir _ es) (c # cs) =
     (case map_of es c of
        None \<Rightarrow> Inl ENOENT
      | Some ch \<Rightarrow> lookup_node ch cs)"

text \<open>
  \<^verbatim>\<open>fs.writeFile(p, data)\<close>: truncate or create the file; the parent must be a directory,
  the path itself must not be one. The file's time stamp becomes the clock's, and so does
  the parent's when the entry is new.
\<close>

fun writeFile_node :: "nat \<Rightarrow> bytes \<Rightarrow> node \<Rightarrow> abspath \<Rightarrow> errno + node" where
  "writeFile_node t b (File _ _) [] = Inr (File b t)"
| "writeFile_node t b (Dir _ _) [] = Inl EISDIR"
| "writeFile_node t b (File _ _) (c # cs) = Inl ENOTDIR"
| "writeFile_node t b (Dir mt es) (c # cs) =
     (case map_of es c of
        None \<Rightarrow>
          (if cs = [] then Inr (Dir t (AList.update c (File b t) es)) else Inl ENOENT)
      | Some ch \<Rightarrow>
          (case writeFile_node t b ch cs of
             Inl e \<Rightarrow> Inl e
           | Inr ch' \<Rightarrow> Inr (Dir mt (AList.update c ch' es))))"

text \<open>\<^verbatim>\<open>fs.mkdir(p)\<close>: the parent must be a directory and the path must not exist.\<close>

fun mkdir_node :: "nat \<Rightarrow> node \<Rightarrow> abspath \<Rightarrow> errno + node" where
  "mkdir_node t n [] = Inl EEXIST"
| "mkdir_node t (File _ _) (c # cs) = Inl ENOTDIR"
| "mkdir_node t (Dir mt es) (c # cs) =
     (case map_of es c of
        None \<Rightarrow>
          (if cs = [] then Inr (Dir t (AList.update c (Dir t []) es)) else Inl ENOENT)
      | Some ch \<Rightarrow>
          (case mkdir_node t ch cs of
             Inl e \<Rightarrow> Inl e
           | Inr ch' \<Rightarrow> Inr (Dir mt (AList.update c ch' es))))"

text \<open>
  \<^verbatim>\<open>fs.mkdir(p, { recursive: true })\<close>: an existing directory is left as it is, missing
  directories are created from the first missing one down; a file at the path is
  \<^verbatim>\<open>EEXIST\<close>, a file on the way is \<^verbatim>\<open>ENOTDIR\<close>.
\<close>

fun fresh_dirs :: "nat \<Rightarrow> abspath \<Rightarrow> node" where
  "fresh_dirs t [] = Dir t []"
| "fresh_dirs t (c # cs) = Dir t [(c, fresh_dirs t cs)]"

fun mkdirp_node :: "nat \<Rightarrow> node \<Rightarrow> abspath \<Rightarrow> errno + node" where
  "mkdirp_node t (Dir mt es) [] = Inr (Dir mt es)"
| "mkdirp_node t (File b mt) [] = Inl EEXIST"
| "mkdirp_node t (File _ _) (c # cs) = Inl ENOTDIR"
| "mkdirp_node t (Dir mt es) (c # cs) =
     (case map_of es c of
        None \<Rightarrow> Inr (Dir t (AList.update c (fresh_dirs t cs) es))
      | Some ch \<Rightarrow>
          (case mkdirp_node t ch cs of
             Inl e \<Rightarrow> Inl e
           | Inr ch' \<Rightarrow> Inr (Dir mt (AList.update c ch' es))))"

text \<open>Taking an entry out of its directory, and putting one in.\<close>

fun remove_node :: "nat \<Rightarrow> node \<Rightarrow> abspath \<Rightarrow> node" where
  "remove_node t (Dir mt es) [c] = Dir t (AList.delete c es)"
| "remove_node t (Dir mt es) (c # d # cs) =
     (case map_of es c of
        None \<Rightarrow> Dir mt es
      | Some ch \<Rightarrow> Dir mt (AList.update c (remove_node t ch (d # cs)) es))"
| "remove_node t n p = n"

fun put_node :: "nat \<Rightarrow> node \<Rightarrow> node \<Rightarrow> abspath \<Rightarrow> node" where
  "put_node t x (Dir mt es) [c] = Dir t (AList.update c x es)"
| "put_node t x (Dir mt es) (c # d # cs) =
     (case map_of es c of
        None \<Rightarrow> Dir mt es
      | Some ch \<Rightarrow> Dir mt (AList.update c (put_node t x ch (d # cs)) es))"
| "put_node t x n p = n"

text \<open>\<^verbatim>\<open>fs.rm(p)\<close> without options removes a file and refuses a directory.\<close>

definition rm_node :: "nat \<Rightarrow> node \<Rightarrow> abspath \<Rightarrow> errno + node" where
  "rm_node t n p =
     (case lookup_node n p of
        Inl e \<Rightarrow> Inl e
      | Inr (Dir _ _) \<Rightarrow> Inl EISDIR
      | Inr (File _ _) \<Rightarrow> Inr (remove_node t n p))"

text \<open>
  \<^verbatim>\<open>fs.rename(old, new)\<close>: the old path must exist and the new path's parent must be a
  directory; a file replaces a file, a directory replaces an empty directory.
\<close>

definition rename_node :: "nat \<Rightarrow> node \<Rightarrow> abspath \<Rightarrow> abspath \<Rightarrow> errno + node" where
  "rename_node t n old new =
     (case lookup_node n old of
        Inl e \<Rightarrow> Inl e
      | Inr src \<Rightarrow>
          if old = new then Inr n
          else if old = [] \<or> new = [] then Inl EBUSY
          else if prefix old new then (if is_Dir src then Inl EINVAL else Inl ENOTDIR)
          else (case lookup_node n (butlast new) of
                  Inl e \<Rightarrow> Inl e
                | Inr (File _ _) \<Rightarrow> Inl ENOTDIR
                | Inr (Dir _ _) \<Rightarrow>
                    (case lookup_node n new of
                       Inr (Dir _ es) \<Rightarrow>
                         (if \<not> is_Dir src then Inl EISDIR
                          else if es = [] then Inr (put_node t src (remove_node t n old) new)
                          else Inl ENOTEMPTY)
                     | Inr (File _ _) \<Rightarrow>
                         (if is_Dir src then Inl ENOTDIR
                          else Inr (put_node t src (remove_node t n old) new))
                     | Inl _ \<Rightarrow> Inr (put_node t src (remove_node t n old) new))))"

subsection \<open>The state the plugin acts on\<close>

datatype error = FsError errno | ReadError

datatype fs_call =
    Mkdir abspath bool
  | WriteFile abspath bytes
  | Rm abspath
  | Rename abspath abspath

datatype level = Log | Warn | Err

text \<open>
  The state holds the file tree, the clock, every mutating call made to \<^verbatim>\<open>fs\<close> (in order,
  whether it succeeded or not), the console and the notices shown to the user. A raised
  exception does not undo what was done before it, so every operation returns the state
  next to its result.
\<close>

record state =
  tree :: node
  clock :: nat
  calls :: "fs_call list"
  console :: "(level \<times> string) list"
  notices :: "string list"

type_synonym 'a io = "state \<Rightarrow> (error + 'a) \<times> state"

definition seq :: "'a io \<Rightarrow> ('a \<Rightarrow> 'b io) \<Rightarrow> 'b io" where
  "seq m k s = (case m s of (Inl e, s') \<Rightarrow> (Inl e, s') | (Inr x, s') \<Rightarrow> k x s')"

definition console_put :: "level \<Rightarrow> string \<Rightarrow> state \<Rightarrow> state" where
  "console_put l msg s = s\<lparr>console := console s @ [(l, msg)]\<rparr>"

definition Notice :: "string \<Rightarrow> state \<Rightarrow> state" where
  "Notice msg s = s\<lparr>notices := notices s @ [msg]\<rparr>"

record Stats =
  isDirectory :: bool
  mtime :: nat

definition fs_stat :: "abspath \<Rightarrow> state \<Rightarrow> error + Stats" where
  "fs_stat p s =
     (case lookup_node (tree s) p of
        Inl e \<Rightarrow> Inl (FsError e)
      | Inr n \<Rightarrow> Inr \<lparr>isDirectory = is_Dir n, mtime = node_mtime n\<rparr>)"

definition fs_call :: "fs_call \<Rightarrow> errno + node \<Rightarrow> unit io" where
  "fs_call c r s =
     (case r of
        Inl e \<Rightarrow> (Inl (FsError e), s\<lparr>calls := calls s @ [c]\<rparr>)
      | Inr n \<Rightarrow> (Inr (), s\<lparr>calls := calls s @ [c], tree := n\<rparr>))"

definition fs_writeFile :: "abspath \<Rightarrow> bytes \<Rightarrow> unit io" where
  "fs_writeFile p b s = fs_call (WriteFile p b) (writeFile_node (clock s) b (tree s) p) s"

definition fs_mkdir :: "abspath \<Rightarrow> bool \<Rightarrow> unit io" where
  "fs_mkdir p recursive s =
     fs_call (Mkdir p recursive)
       (if recursive then mkdirp_node (clock s) (tree s) p
        else mkdir_node (clock s) (tree s) p) s"

definition fs_rm :: "abspath \<Rightarrow> unit io" where
  "fs_rm p s = fs_call (Rm p) (rm_node (clock s) (tree s) p) s"

definition fs_rename :: "abspath \<Rightarrow> abspath \<Rightarrow> unit io" where
  "fs_rename old new s = fs_call (Rename old new) (rename_node (clock s) (tree s) old new) s"

subsection \<open>The plugin: settings, environment and vault\<close>

record CopyExternalPluginSettings =
  targetDirectory :: string
  notifyCreate :: bool
  notifyModify :: bool
  notifyDelete :: bool
  notifyRename :: bool

definition DEFAULT_SETTINGS :: CopyExternalPluginSettings where
  "DEFAULT_SETTINGS =
     \<lparr>targetDirectory = ''$HOME/cs/test-notes'', notifyCreate = True,
      notifyModify = False, notifyDelete = True, notifyRename = True\<rparr>"

record TAbstractFile =
  path :: string
  name :: string

record TFile = TAbstractFile +
  stat_mtime :: nat

datatype StatType = TypeFile | TypeFolder | TypeOther string

text \<open>
  What the plugin reads and does not change: its settings, \<^verbatim>\<open>process.env.HOME\<close>
  (\<open>None\<close> when it is not a string), and the vault: \<^verbatim>\<open>adapter.stat\<close> (\<open>None\<close> for
  \<^verbatim>\<open>null\<close>), \<^verbatim>\<open>adapter.readBinary\<close> (\<open>None\<close> when it rejects) and \<^verbatim>\<open>vault.getFiles()\<close>.
\<close>

record plugin =
  settings :: CopyExternalPluginSettings
  env_HOME :: "string option"
  adapter_stat :: "string \<Rightarrow> StatType option"
  adapter_readBinary :: "string \<Rightarrow> bytes option"
  getFiles :: "TFile list"

definition readBinary :: "plugin \<Rightarrow> string \<Rightarrow> bytes io" where
  "readBinary P p s =
     (case adapter_readBinary P p of
        None \<Rightarrow> (Inl ReadError, s)
      | Some b \<Rightarrow> (Inr b, s))"

subsection \<open>The plugin's methods\<close>

definition expandTargetPath :: "plugin \<Rightarrow> string" where
  "expandTargetPath P =
     (case env_HOME P of
        Some home \<Rightarrow> replace (targetDirectory (settings P)) ''$HOME'' home
      | None \<Rightarrow> targetDirectory (settings P))"

text \<open>\<^verbatim>\<open>fs.stat\<close> of the empty string rejects; every rejection is caught and gives false.\<close>

definition targetPathExists :: "plugin \<Rightarrow> state \<Rightarrow> bool" where
  "targetPathExists P s =
     (if expandTargetPath P = [] then False
      else (case fs_stat (path_resolve (expandTargetPath P)) s of
              Inl e \<Rightarrow> False
            | Inr targetStat \<Rightarrow> isDirectory targetStat))"

definition safeStat :: "abspath \<Rightarrow> state \<Rightarrow> Stats option" where
  "safeStat file s = (case fs_stat file s of Inl e \<Rightarrow> None | Inr st \<Rightarrow> Some st)"

definition ensureParentDirectory :: "abspath \<Rightarrow> unit io" where
  "ensureParentDirectory targetPath s =
     (let targetParent = path_dirname targetPath in
      case safeStat targetParent s of
        Some targetStat \<Rightarrow>
          (if isDirectory targetStat then (Inr (), s) else fs_mkdir targetParent True s)
      | None \<Rightarrow> fs_mkdir targetParent True s)"

definition ensureTargetPath :: "plugin \<Rightarrow> string \<Rightarrow> abspath io" where
  "ensureTargetPath P file s =
     (let targetPath = path_join (expandTargetPath P) file in
      seq (ensureParentDirectory targetPath) (\<lambda>_ s'. (Inr targetPath, s')) s)"

definition unavailable :: "plugin \<Rightarrow> string" where
  "unavailable P =
     ''Target path '' @ quote (targetDirectory (settings P)) @
     '' does not exist; no synching will take place.''"

definition summary :: "nat \<Rightarrow> nat \<Rightarrow> nat \<Rightarrow> string" where
  "summary fileCount created updated =
     ''Synced '' @ digits fileCount @ '' files; '' @ digits created @ '' created, '' @
     digits updated @ '' updated.''"

text \<open>
  The body of the loop of \<^verbatim>\<open>syncExistingFiles\<close>, on the counters
  \<open>(fileCount, updated, created)\<close>.
\<close>

definition syncExistingFile ::
  "plugin \<Rightarrow> string \<Rightarrow> TFile \<Rightarrow> nat \<times> nat \<times> nat \<Rightarrow> (nat \<times> nat \<times> nat) io" where
  "syncExistingFile P targetDir file counts s =
     (case counts of (fileCount, updated, created) \<Rightarrow>
        let targetPath = path_join targetDir (path file) in
        (case safeStat targetPath s of
           None \<Rightarrow>
             seq (readBinary P (path file)) (\<lambda>content.
             seq (ensureParentDirectory targetPath) (\<lambda>_.
             seq (fs_writeFile targetPath content) (\<lambda>_ s'.
               (Inr (fileCount + 1, updated, created + 1), s')))) s
         | Some targetStat \<Rightarrow>
             if mtime targetStat < stat_mtime file then
               seq (readBinary P (path file)) (\<lambda>content.
               seq (fs_writeFile targetPath content) (\<lambda>_ s'.
                 (Inr (fileCount + 1, updated + 1, created), s'))) s
             else (Inr (fileCount + 1, updated, created), s)))"

fun syncExistingLoop ::
  "plugin \<Rightarrow> string \<Rightarrow> TFile list \<Rightarrow> nat \<times> nat \<times> nat \<Rightarrow> (nat \<times> nat \<times> nat) io" where
  "syncExistingLoop P targetDir [] counts s = (Inr counts, s)"
| "syncExistingLoop P targetDir (file # files) counts s =
     (case syncExistingFile P targetDir file counts s of
        (Inl e, s') \<Rightarrow> (Inl e, s')
      | (Inr counts', s') \<Rightarrow> syncExistingLoop P targetDir files counts' s')"

definition syncExistingFiles :: "plugin \<Rightarrow> unit io" where
  "syncExistingFiles P s =
     (if \<not> targetPathExists P s then (Inr (), console_put Warn (unavailable P) s)
      else
        let s1 = console_put Log ''Syncing existing files ...'' s;
            targetDir = expandTargetPath P
        in case syncExistingLoop P targetDir (getFiles P) (0, 0, 0) s1 of
             (Inl e, s2) \<Rightarrow> (Inl e, s2)
           | (Inr (fileCount, updated, created), s2) \<Rightarrow>
               let message = summary fileCount created updated
               in (Inr (), Notice message (console_put Log message s2)))"

text \<open>The warning for \<^verbatim>\<open>fileStat?.type\<close> that is neither \<^verbatim>\<open>folder\<close> nor \<^verbatim>\<open>file\<close>.\<close>

definition unknownType :: "StatType option \<Rightarrow> string" where
  "unknownType fileStat =
     ''Unknown file type: '' @
     quote (case fileStat of Some (TypeOther ty) \<Rightarrow> ty | _ \<Rightarrow> ''undefined'')"

definition syncFileCreate :: "plugin \<Rightarrow> 'a TAbstractFile_scheme \<Rightarrow> unit io" where
  "syncFileCreate P file s =
     (let s1 = console_put Log (''Syncing new file: '' @ quote (path file)) s in
      if \<not> targetPathExists P s1 then (Inr (), console_put Warn (unavailable P) s1)
      else
        let fileStat = adapter_stat P (path file) in
        seq (ensureTargetPath P (path file)) (\<lambda>targetPath.
          if fileStat = Some TypeFolder then fs_mkdir targetPath False
          else if fileStat = Some TypeFile then
            seq (readBinary P (path file)) (\<lambda>content.
            seq (fs_writeFile targetPath content) (\<lambda>_ s'.
              (Inr (), if notifyCreate (settings P)
                       then Notice (''Synced new file '' @ quote (name file)) s'
                       else s')))
          else (\<lambda>s'. (Inr (), console_put Warn (unknownType fileStat) s'))) s1)"

definition syncFileModify :: "plugin \<Rightarrow> 'a TAbstractFile_scheme \<Rightarrow> unit io" where
  "syncFileModify P file s =
     (let s1 = console_put Log (''Synching modified file: '' @ quote (path file)) s in
      if \<not> targetPathExists P s1 then (Inr (), console_put Warn (unavailable P) s1)
      else
        seq (ensureTargetPath P (path file)) (\<lambda>targetPath.
        seq (readBinary P (path file)) (\<lambda>content.
        seq (fs_writeFile targetPath content) (\<lambda>_ s'.
          (Inr (), if notifyModify (settings P)
                   then Notice (''Synced modified file '' @ quote (name file)) s'
                   else s')))) s1)"

definition syncFileDelete :: "plugin \<Rightarrow> 'a TAbstractFile_scheme \<Rightarrow> unit io" where
  "syncFileDelete P file s =
     (let s1 = console_put Log (''Syncing deletion of file '' @ quote (path file)) s in
      if \<not> targetPathExists P s1 then (Inr (), console_put Warn (unavailable P) s1)
      else
        let targetPath = path_join (expandTargetPath P) (path file) in
        seq (fs_rm targetPath) (\<lambda>_ s'.
          (Inr (), if notifyDelete (settings P)
                   then Notice (''Synced deleted file '' @ quote (name file)) s'
                   else s')) s1)"

definition renameFailed :: "abspath \<Rightarrow> abspath \<Rightarrow> string" where
  "renameFailed oldTargetPath newTargetPath =
     ''Failed to rename '' @ quote (render oldTargetPath) @ '' to '' @
     quote (render newTargetPath)"

definition syncFileRename :: "plugin \<Rightarrow> 'a TAbstractFile_scheme \<Rightarrow> string \<Rightarrow> unit io" where
  "syncFileRename P file oldPath s =
     (let s1 = console_put Log
                 (''Syncing file rename from '' @ quote oldPath @ '' to '' @
                  quote (path file)) s in
      if \<not> targetPathExists P s1 then (Inr (), console_put Warn (unavailable P) s1)
      else
        let expandedTarget = expandTargetPath P;
            oldTargetPath = path_join expandedTarget oldPath;
            newTargetPath = path_join expandedTarget (path file)
        in seq (ensureParentDirectory newTargetPath) (\<lambda>_ s2.
             case fs_rename oldTargetPath newTargetPath s2 of
               (Inr _, s3) \<Rightarrow>
                 (Inr (), if notifyRename (settings P)
                          then Notice (''Synced rename file '' @ quote (name file) @
                                       '' (was '' @ quote oldPath @ '')'') s3
                          else s3)
             | (Inl e, s3) \<Rightarrow>
                 (Inr (), Notice (renameFailed oldTargetPath newTargetPath)
                            (console_put Err (renameFailed oldTargetPath newTargetPath) s3))) s1)"

subsection \<open>Auxiliary notions for the proofs\<close>

text \<open>
  \<open>keeps t n n'\<close>: every entry of the tree \<open>n\<close> is still there in \<open>n'\<close>, of the same kind,
  with its time stamp either unchanged or set to \<open>t\<close>.
\<close>

definition keeps :: "nat \<Rightarrow> node \<Rightarrow> node \<Rightarrow> bool" where
  "keeps t n n' \<longleftrightarrow>
     (\<forall>q x. lookup_node n q = Inr x \<longrightarrow>
        (\<exists>x'. lookup_node n' q = Inr x' \<and> is_Dir x' = is_Dir x \<and>
              (node_mtime x' = node_mtime x \<or> node_mtime x' = t)))"

text \<open>
  \<open>noop s r\<close>: the operation with outcome \<open>r\<close>, started in \<open>s\<close>, returned normally, made
  no mutating call to \<^verbatim>\<open>fs\<close>, left the tree as it was and showed no notice.
\<close>

definition noop :: "state \<Rightarrow> (error + unit) \<times> state \<Rightarrow> bool" where
  "noop s r \<longleftrightarrow>
     fst r = Inr () \<and> tree (snd r) = tree s \<and> calls (snd r) = calls s \<and>
     notices (snd r) = notices s"

fun is_WriteFile :: "fs_call \<Rightarrow> bool" where
  "is_WriteFile (WriteFile _ _) = True"
| "is_WriteFile _ = False"

text \<open>The number of \<^verbatim>\<open>writeFile\<close> calls made so far.\<close>

definition writes :: "state \<Rightarrow> nat" where
  "writes s = length (filter is_WriteFile (calls s))"

text \<open>
  \<open>fresh targetDir s file\<close>: the target of the file exists and is not older than the source.
\<close>

definition fresh :: "string \<Rightarrow> state \<Rightarrow> TFile \<Rightarrow> bool" where
  "fresh targetDir s file =
     (case safeStat (path_join targetDir (path file)) s of
        None \<Rightarrow> False
      | Some targetStat \<Rightarrow> \<not> mtime targetStat < stat_mtime file)"

text \<open>A plugin with the rename notification switched on or off.\<close>

definition withNotifyRename :: "bool \<Rightarrow> plugin \<Rightarrow> plugin" where
  "withNotifyRename b P = P\<lparr>settings := (settings P)\<lparr>notifyRename := b\<rparr>\<rparr>"


subsection \<open>Concrete plugins and states\<close>

text \<open>A home directory whose name holds two dollar signs, with the default settings.\<close>

definition dollar_home :: plugin where
  "dollar_home =
     \<lparr>settings = DEFAULT_SETTINGS, env_HOME = Some ''/Users/a$$b'',
      adapter_stat = (\<lambda>p. None), adapter_readBinary = (\<lambda>p. None), getFiles = []\<rparr>"

text \<open>
  A vault with the one file \<^verbatim>\<open>a/b.md\<close> (content \<^verbatim>\<open>x\<close>, modified at 100), mirrored into
  \<^verbatim>\<open>$HOME/t\<close> with \<^verbatim>\<open>HOME=/h\<close>.
\<close>

definition b_md :: TFile where
  "b_md = \<lparr>path = ''a/b.md'', name = ''b.md'', stat_mtime = 100\<rparr>"

definition vault1 :: plugin where
  "vault1 =
     \<lparr>settings = DEFAULT_SETTINGS\<lparr>targetDirectory := ''$HOME/t''\<rparr>, env_HOME = Some ''/h'',
      adapter_stat = (\<lambda>p. if p = ''a/b.md'' then Some TypeFile
                           else if p = ''a'' then Some TypeFolder else None),
      adapter_readBinary = (\<lambda>p. if p = ''a/b.md'' then Some ''x'' else None),
      getFiles = [b_md]\<rparr>"

text \<open>The item \<^verbatim>\<open>a/c.md\<close>, the new name of \<^verbatim>\<open>a/b.md\<close> in a Renamed event.\<close>

definition c_md :: TAbstractFile where
  "c_md = \<lparr>path = ''a/c.md'', name = ''c.md''\<rparr>"


text \<open>The tree with nothing in it, and the tree with the empty directory \<^verbatim>\<open>/h/t\<close>.\<close>

definition no_target :: state where
  "no_target = \<lparr>tree = Dir 0 [], clock = 200, calls = [], console = [], notices = []\<rparr>"

definition empty_target :: "nat \<Rightarrow> state" where
  "empty_target now =
     \<lparr>tree = Dir 0 [(''h'', Dir 0 [(''t'', Dir 0 [])])], clock = now, calls = [],
      console = [], notices = []\<rparr>"

text \<open>
  The target directory that holds \<^verbatim>\<open>a/b.md\<close> with the content \<^verbatim>\<open>old\<close>, written at
  \<open>written\<close>.
\<close>

definition mirrored :: "nat \<Rightarrow> nat \<Rightarrow> state" where
  "mirrored written now =
     \<lparr>tree = Dir 0 [(''h'', Dir 0 [(''t'', Dir 0 [(''a'', Dir 0 [(''b.md'', File ''old'' written)])])])],
      clock = now, calls = [], console = [], notices = []\<rparr>"

text \<open>The target directory in which a regular file has the name \<^verbatim>\<open>a\<close>.\<close>

definition file_in_the_way :: state where
  "file_in_the_way =
     \<lparr>tree = Dir 0 [(''h'', Dir 0 [(''t'', Dir 0 [(''a'', File ''old'' 0)])])], clock = 200,
      calls = [], console = [], notices = []\<rparr>"

text \<open>The target directory in which \<^verbatim>\<open>a/b.md\<close> is a directory.\<close>

definition dir_in_the_way :: state where
  "dir_in_the_way =
     \<lparr>tree = Dir 0 [(''h'', Dir 0 [(''t'', Dir 0 [(''a'', Dir 0 [(''b.md'', Dir 0 [])])])])],
      clock = 200, calls = [], console = [], notices = []\<rparr>"





section \<open>Properties of the file tree\<close>

subsection \<open>Looking up and writing\<close>

lemma lookup_node_append:
  "lookup_node n (q @ r) = (case lookup_node n q of Inl e \<Rightarrow> Inl e | Inr x \<Rightarrow> lookup_node x r)"
proof (induction q arbitrary: n)
  case Nil
  show ?case by simp
next
  case (Cons c q)
  show ?case
  proof (cases n)
    case (File b mt)
    then show ?thesis by simp
  next
    case (Dir mt es)
    then show ?thesis using Cons.IH by (simp split: option.splits)
  qed
qed

lemma lookup_node_child_is_Dir:
  assumes "lookup_node n (q @ c # r) = Inr x"
  shows "\<exists>y. lookup_node n q = Inr y \<and> is_Dir y"
proof -
  from assms obtain y where y: "lookup_node n q = Inr y" "lookup_node y (c # r) = Inr x"
    by (auto simp: lookup_node_append split: sum.splits)
  then have "is_Dir y" by (cases y) auto
  with y show ?thesis by blast
qed

lemma lookup_node_errno:
  "lookup_node n p = Inl e \<Longrightarrow> e = ENOENT \<or> e = ENOTDIR"
  by (induction n p rule: lookup_node.induct) (auto split: option.splits)

lemma writeFile_node_lookup:
  "writeFile_node t b n p = Inr n' \<Longrightarrow> lookup_node n' p = Inr (File b t)"
proof (induction p arbitrary: n n')
  case Nil
  then show ?case by (cases n) auto
next
  case (Cons c cs)
  show ?case
  proof (cases n)
    case (File b0 mt)
    with Cons.prems show ?thesis by simp
  next
    case (Dir mt es)
    with Cons.prems Cons.IH show ?thesis
      by (auto simp: update_conv' split: option.splits sum.splits if_splits)
  qed
qed

lemma writeFile_node_existing:
  "lookup_node n p = Inr (File b0 m0) \<Longrightarrow> \<exists>n'. writeFile_node t b n p = Inr n'"
proof (induction p arbitrary: n)
  case Nil
  then show ?case by simp
next
  case (Cons c cs)
  show ?case
  proof (cases n)
    case (File b1 mt)
    with Cons.prems show ?thesis by simp
  next
    case (Dir mt es)
    with Cons.prems Cons.IH show ?thesis
      by (fastforce split: option.splits sum.splits)
  qed
qed

subsection \<open>What an operation keeps\<close>

lemma keeps_refl: "keeps t n n"
  by (simp add: keeps_def)

lemma keeps_trans: "keeps t a b \<Longrightarrow> keeps t b c \<Longrightarrow> keeps t a c"
  unfolding keeps_def by (metis (no_types, lifting))

lemma keeps_DirI:
  assumes "map_of es c = Some ch" "keeps t ch ch'"
  shows "keeps t (Dir mt es) (Dir mt (AList.update c ch' es))"
  unfolding keeps_def
proof (intro allI impI)
  fix q x assume l: "lookup_node (Dir mt es) q = Inr x"
  show "\<exists>x'. lookup_node (Dir mt (AList.update c ch' es)) q = Inr x' \<and> is_Dir x' = is_Dir x \<and>
              (node_mtime x' = node_mtime x \<or> node_mtime x' = t)"
  proof (cases q)
    case Nil
    with l show ?thesis by auto
  next
    case (Cons d r)
    show ?thesis
    proof (cases "d = c")
      case True
      with l Cons assms(1) have "lookup_node ch r = Inr x" by simp
      with assms(2) obtain x' where "lookup_node ch' r = Inr x'" "is_Dir x' = is_Dir x"
        "node_mtime x' = node_mtime x \<or> node_mtime x' = t"
        unfolding keeps_def by blast
      with True Cons show ?thesis by (simp add: update_conv')
    next
      case False
      with l Cons show ?thesis by (simp add: update_conv')
    qed
  qed
qed

lemma keeps_newI:
  assumes "map_of es c = None"
  shows "keeps t (Dir mt es) (Dir t (AList.update c x es))"
  unfolding keeps_def
proof (intro allI impI)
  fix q y assume l: "lookup_node (Dir mt es) q = Inr y"
  show "\<exists>x'. lookup_node (Dir t (AList.update c x es)) q = Inr x' \<and> is_Dir x' = is_Dir y \<and>
              (node_mtime x' = node_mtime y \<or> node_mtime x' = t)"
  proof (cases q)
    case Nil
    with l show ?thesis by auto
  next
    case (Cons d r)
    with l assms have "d \<noteq> c" by (auto split: option.splits)
    with l Cons show ?thesis by (simp add: update_conv')
  qed
qed

lemma writeFile_node_keeps:
  "writeFile_node t b n p = Inr n' \<Longrightarrow> keeps t n n'"
proof (induction p arbitrary: n n')
  case Nil
  then show ?case by (cases n) (auto simp: keeps_def elim!: lookup_node.elims)
next
  case (Cons c cs)
  show ?case
  proof (cases n)
    case (File b0 mt)
    with Cons.prems show ?thesis by simp
  next
    case (Dir mt es)
    with Cons.prems Cons.IH show ?thesis
      by (auto split: option.splits sum.splits if_splits intro: keeps_DirI keeps_newI)
  qed
qed

lemma mkdirp_node_keeps:
  "mkdirp_node t n p = Inr n' \<Longrightarrow> keeps t n n'"
proof (induction p arbitrary: n n')
  case Nil
  then show ?case by (cases n) (auto simp: keeps_refl)
next
  case (Cons c cs)
  show ?case
  proof (cases n)
    case (File b0 mt)
    with Cons.prems show ?thesis by simp
  next
    case (Dir mt es)
    with Cons.prems Cons.IH show ?thesis
      by (auto split: option.splits sum.splits if_splits intro: keeps_DirI keeps_newI)
  qed
qed

subsection \<open>Recursive creation of directories\<close>

lemma mkdirp_node_Dir:
  "lookup_node n p = Inr x \<Longrightarrow> is_Dir x \<Longrightarrow> mkdirp_node t n p = Inr n"
proof (induction p arbitrary: n)
  case Nil
  then show ?case by (cases n) auto
next
  case (Cons c cs)
  show ?case
  proof (cases n)
    case (File b mt)
    with Cons.prems show ?thesis by simp
  next
    case (Dir mt es)
    with Cons.prems Cons.IH show ?thesis
      by (auto split: option.splits simp: update_triv)
  qed
qed

lemma mkdirp_node_File:
  "lookup_node n p = Inr x \<Longrightarrow> \<not> is_Dir x \<Longrightarrow> mkdirp_node t n p = Inl EEXIST"
proof (induction p arbitrary: n)
  case Nil
  then show ?case by (cases n) auto
next
  case (Cons c cs)
  show ?case
  proof (cases n)
    case (File b mt)
    with Cons.prems show ?thesis by simp
  next
    case (Dir mt es)
    with Cons.prems Cons.IH show ?thesis
      by (auto split: option.splits)
  qed
qed

lemma mkdirp_node_ENOENT:
  "lookup_node n p = Inl ENOENT \<Longrightarrow> \<exists>n'. mkdirp_node t n p = Inr n'"
proof (induction p arbitrary: n)
  case Nil
  then show ?case by simp
next
  case (Cons c cs)
  show ?case
  proof (cases n)
    case (File b mt)
    with Cons.prems show ?thesis by simp
  next
    case (Dir mt es)
    with Cons.prems Cons.IH show ?thesis
      by (fastforce split: option.splits)
  qed
qed

lemma mkdirp_node_ENOTDIR:
  "lookup_node n p = Inl ENOTDIR \<Longrightarrow> mkdirp_node t n p = Inl ENOTDIR"
proof (induction p arbitrary: n)
  case Nil
  then show ?case by simp
next
  case (Cons c cs)
  show ?case
  proof (cases n)
    case (File b mt)
    then show ?thesis by simp
  next
    case (Dir mt es)
    with Cons.prems Cons.IH show ?thesis
      by (auto split: option.splits)
  qed
qed

lemma lookup_fresh_dirs:
  "lookup_node (fresh_dirs t p) p = Inr (Dir t [])"
  by (induction p) auto


lemma lookup_fresh_dirs_Inr:
  "lookup_node (fresh_dirs t p) q = Inr x \<Longrightarrow> prefix q p \<and> is_Dir x"
proof (induction p arbitrary: q)
  case Nil
  then show ?case by (cases q) auto
next
  case (Cons c cs)
  then show ?case by (cases q) (auto split: if_splits)
qed

lemma mkdirp_node_lookup:
  "mkdirp_node t n p = Inr n' \<Longrightarrow> \<exists>x. lookup_node n' p = Inr x \<and> is_Dir x"
proof (induction p arbitrary: n n')
  case Nil
  then show ?case by (cases n) auto
next
  case (Cons c cs)
  show ?case
  proof (cases n)
    case (File b mt)
    with Cons.prems show ?thesis by simp
  next
    case (Dir mt es)
    with Cons.prems Cons.IH show ?thesis
      by (auto split: option.splits sum.splits simp: update_conv' lookup_fresh_dirs)
  qed
qed


lemma mkdirp_node_new:
  "mkdirp_node t n p = Inr n' \<Longrightarrow> lookup_node n q = Inl e \<Longrightarrow> lookup_node n' q = Inr x
     \<Longrightarrow> prefix q p \<and> is_Dir x"
proof (induction p arbitrary: n n' q)
  case Nil
  then show ?case by (cases n) auto
next
  case (Cons d ds)
  show ?case
  proof (cases n)
    case (File b mt)
    with Cons.prems show ?thesis by simp
  next
    case (Dir mt es)
    show ?thesis
    proof (cases q)
      case Nil
      with Cons.prems show ?thesis by simp
    next
      case (Cons a r)
      show ?thesis
      proof (cases "map_of es d")
        case None
        with Cons.prems Dir Cons show ?thesis
          by (auto simp: update_conv' split: if_splits dest: lookup_fresh_dirs_Inr)
      next
        case (Some ch)
        with Cons.prems Dir Cons Cons.IH show ?thesis
          by (auto simp: update_conv' split: if_splits sum.splits)
      qed
    qed
  qed
qed

subsection \<open>Renaming\<close>

lemma rename_node_missing:
  "lookup_node n old = Inl e \<Longrightarrow> rename_node t n old new = Inl e"
  by (simp add: rename_node_def)

lemma rename_node_into_itself:
  assumes "lookup_node n old = Inr x" "is_Dir x" "prefix old (butlast new)" "old \<noteq> []"
  shows "rename_node t n old new = Inl EINVAL"
proof -
  from assms(3) have p: "prefix old new"
    by (meson prefix_order.trans prefixeq_butlast)
  from assms(3) have l: "length old \<le> length (butlast new)" by (rule prefix_length_le)
  with assms(4) have n: "new \<noteq> []" by auto
  with l have "old \<noteq> new" by (auto simp: length_greater_0_conv [symmetric] simp del: length_greater_0_conv)
  note this n
  with assms p show ?thesis by (simp add: rename_node_def)
qed

section \<open>Properties of the plugin\<close>

subsection \<open>The state and the calls to \<^verbatim>\<open>fs\<close>\<close>

lemma console_put_fields [simp]:
  "tree (console_put l m s) = tree s"
  "clock (console_put l m s) = clock s"
  "calls (console_put l m s) = calls s"
  "notices (console_put l m s) = notices s"
  "console (console_put l m s) = console s @ [(l, m)]"
  by (simp_all add: console_put_def)

lemma Notice_fields [simp]:
  "tree (Notice m s) = tree s"
  "clock (Notice m s) = clock s"
  "calls (Notice m s) = calls s"
  "notices (Notice m s) = notices s @ [m]"
  "console (Notice m s) = console s"
  by (simp_all add: Notice_def)

lemma fs_call_fields:
  "fs_call c r s = (res, s') \<Longrightarrow>
     calls s' = calls s @ [c] \<and> notices s' = notices s \<and> console s' = console s \<and>
     clock s' = clock s"
  by (auto simp: fs_call_def split: sum.splits)

lemma fs_writeFile_fields:
  "fs_writeFile p b s = (res, s') \<Longrightarrow>
     calls s' = calls s @ [WriteFile p b] \<and> notices s' = notices s \<and> console s' = console s \<and>
     clock s' = clock s"
  by (auto simp: fs_writeFile_def dest: fs_call_fields)

lemma fs_writeFile_existing:
  assumes "lookup_node (tree s) p = Inr (File b0 m0)"
  shows "\<exists>s'. fs_writeFile p b s = (Inr (), s') \<and> lookup_node (tree s') p = Inr (File b (clock s))"
proof -
  from assms obtain n' where n': "writeFile_node (clock s) b (tree s) p = Inr n'"
    using writeFile_node_existing by blast
  then have "lookup_node n' p = Inr (File b (clock s))" by (rule writeFile_node_lookup)
  with n' show ?thesis by (simp add: fs_writeFile_def fs_call_def)
qed

lemma fs_writeFile_Inr:
  assumes "fs_writeFile p b s = (Inr u, s')"
  shows "lookup_node (tree s') p = Inr (File b (clock s))" "keeps (clock s) (tree s) (tree s')"
  using assms
  by (auto simp: fs_writeFile_def fs_call_def split: sum.splits
      dest: writeFile_node_lookup writeFile_node_keeps)

lemma fs_writeFile_keeps:
  assumes "fs_writeFile p b s = (res, s')"
  shows "keeps (clock s) (tree s) (tree s')"
  using assms
  by (auto simp: fs_writeFile_def fs_call_def keeps_refl split: sum.splits
      dest: writeFile_node_keeps)

lemma fs_rename_console_put:
  "fs_rename old new (console_put l m s) =
     (fst (fs_rename old new s), console_put l m (snd (fs_rename old new s)))"
  by (simp add: fs_rename_def fs_call_def console_put_def split: sum.splits)

lemma fs_rename_fields:
  "fs_rename old new s = (res, s') \<Longrightarrow>
     calls s' = calls s @ [Rename old new] \<and> notices s' = notices s \<and> console s' = console s \<and>
     clock s' = clock s \<and> (\<forall>e. res = Inl e \<longrightarrow> tree s' = tree s)"
  by (auto simp: fs_rename_def fs_call_def split: sum.splits)

lemma readBinary_cases:
  "readBinary P p s = (res, s') \<Longrightarrow> s' = s"
  by (auto simp: readBinary_def split: option.splits)

lemma safeStat_Some:
  "safeStat p s = Some st \<longleftrightarrow>
     (\<exists>n. lookup_node (tree s) p = Inr n \<and> st = \<lparr>isDirectory = is_Dir n, mtime = node_mtime n\<rparr>)"
  by (auto simp: safeStat_def fs_stat_def split: sum.splits)

lemma safeStat_None:
  "safeStat p s = None \<longleftrightarrow> (\<exists>e. lookup_node (tree s) p = Inl e)"
  by (auto simp: safeStat_def fs_stat_def split: sum.splits)

subsection \<open>The availability check\<close>

lemma targetPathExists_tree:
  "tree s' = tree s \<Longrightarrow> targetPathExists P s' = targetPathExists P s"
  by (simp add: targetPathExists_def fs_stat_def)

lemma targetPathExists_console_put [simp]:
  "targetPathExists P (console_put l m s) = targetPathExists P s"
  by (rule targetPathExists_tree) simp

lemma targetPathExists_iff:
  "targetPathExists P s \<longleftrightarrow>
     expandTargetPath P \<noteq> [] \<and>
     (\<exists>n. lookup_node (tree s) (path_resolve (expandTargetPath P)) = Inr n \<and> is_Dir n)"
  by (auto simp: targetPathExists_def fs_stat_def split: sum.splits)

lemma targetPathExists_keeps:
  "targetPathExists P s \<Longrightarrow> keeps t (tree s) (tree s') \<Longrightarrow> targetPathExists P s'"
  unfolding targetPathExists_iff keeps_def by fastforce

lemma expandTargetPath_notifyRename [simp]:
  "expandTargetPath (P\<lparr>settings := (settings P)\<lparr>notifyRename := b\<rparr>\<rparr>) = expandTargetPath P"
  by (simp add: expandTargetPath_def split: option.splits)

lemma targetPathExists_notifyRename [simp]:
  "targetPathExists (P\<lparr>settings := (settings P)\<lparr>notifyRename := b\<rparr>\<rparr>) s = targetPathExists P s"
  by (simp add: targetPathExists_def)

subsection \<open>The directory materializer\<close>

lemma ensureParentDirectory_Dir:
  "lookup_node (tree s) (path_dirname p) = Inr x \<Longrightarrow> is_Dir x \<Longrightarrow>
     ensureParentDirectory p s = (Inr (), s)"
  by (simp add: ensureParentDirectory_def safeStat_def fs_stat_def)

lemma ensureParentDirectory_else:
  "\<not> (\<exists>x. lookup_node (tree s) (path_dirname p) = Inr x \<and> is_Dir x) \<Longrightarrow>
     ensureParentDirectory p s = fs_mkdir (path_dirname p) True s"
  by (auto simp: ensureParentDirectory_def safeStat_def fs_stat_def Let_def split: sum.splits)

lemma ensureParentDirectory_fields:
  assumes "ensureParentDirectory p s = (res, s')"
  shows "notices s' = notices s" "console s' = console s" "clock s' = clock s"
    "calls s' = calls s \<or> calls s' = calls s @ [Mkdir (path_dirname p) True]"
  using assms
  by (auto simp: ensureParentDirectory_def fs_mkdir_def Let_def
      split: option.splits if_splits dest: fs_call_fields)

lemma ensureParentDirectory_keeps:
  assumes "ensureParentDirectory p s = (res, s')"
  shows "keeps (clock s) (tree s) (tree s')"
  using assms
  by (auto simp: ensureParentDirectory_def fs_mkdir_def fs_call_def Let_def keeps_refl
      split: option.splits if_splits sum.splits dest: mkdirp_node_keeps)


lemma ensureParentDirectory_console_put:
  "ensureParentDirectory p (console_put l m s) =
     (fst (ensureParentDirectory p s), console_put l m (snd (ensureParentDirectory p s)))"
  by (simp add: ensureParentDirectory_def safeStat_def fs_stat_def fs_mkdir_def fs_call_def
      console_put_def Let_def split: sum.splits)

lemma rename_fails_when_missing:
  assumes miss: "lookup_node (tree s) old = Inl e0"
      and e: "ensureParentDirectory new s = (Inr u, s2)"
  shows "\<exists>e. fst (fs_rename old new s2) = Inl e"
proof -
  have "\<exists>e. rename_node (clock s2) (tree s2) old new = Inl e"
  proof (cases "lookup_node (tree s2) old")
    case (Inl e1)
    then show ?thesis by (auto simp: rename_node_missing)
  next
    case (Inr x)
    with miss have "tree s2 \<noteq> tree s" by auto
    with e have m: "mkdirp_node (clock s) (tree s) (path_dirname new) = Inr (tree s2)"
      by (auto simp: ensureParentDirectory_def fs_mkdir_def fs_call_def Let_def
          split: option.splits if_splits sum.splits)
    from mkdirp_node_new [OF m miss Inr] have "prefix old (butlast new)" "is_Dir x"
      by (simp_all add: path_dirname_def)
    moreover from miss have "old \<noteq> []" by auto
    ultimately show ?thesis using Inr by (auto simp: rename_node_into_itself)
  qed
  then show ?thesis
    by (auto simp: fs_rename_def fs_call_def)
qed

subsection \<open>The reconciliation pass\<close>

lemma syncExistingFile_fields:
  assumes "syncExistingFile P targetDir file counts s = (res, s')"
  shows "notices s' = notices s" "console s' = console s" "clock s' = clock s"
    "keeps (clock s) (tree s) (tree s')"
proof -
  obtain n u c where counts: "counts = (n, u, c)" by (cases counts)
  define tp where "tp = path_join targetDir (path file)"
  have "notices s' = notices s \<and> console s' = console s \<and> clock s' = clock s \<and>
        keeps (clock s) (tree s) (tree s')"
  proof (cases "safeStat tp s")
    case None
    show ?thesis
    proof (cases "adapter_readBinary P (path file)")
      case N: None
      with None assms counts show ?thesis
        by (simp add: syncExistingFile_def Let_def seq_def readBinary_def tp_def keeps_refl)
    next
      case (Some content)
      obtain r1 s1 where e: "ensureParentDirectory tp s = (r1, s1)"
        by (cases "ensureParentDirectory tp s")
      obtain r2 s2 where w: "fs_writeFile tp content s1 = (r2, s2)"
        by (cases "fs_writeFile tp content s1")
      from None Some assms counts e w have "s' = s1 \<or> s' = s2"
        by (auto simp: syncExistingFile_def Let_def seq_def readBinary_def tp_def
            split: sum.splits)
      moreover have "notices s1 = notices s" "console s1 = console s" "clock s1 = clock s"
        "keeps (clock s) (tree s) (tree s1)"
        using ensureParentDirectory_fields [OF e] ensureParentDirectory_keeps [OF e] by auto
      moreover have "notices s2 = notices s1" "console s2 = console s1" "clock s2 = clock s1"
        "keeps (clock s1) (tree s1) (tree s2)"
        using fs_writeFile_fields [OF w] fs_writeFile_keeps [OF w] by auto
      ultimately show ?thesis by (auto intro: keeps_trans)
    qed
  next
    case (Some targetStat)
    show ?thesis
    proof (cases "mtime targetStat < stat_mtime file")
      case False
      with Some assms counts show ?thesis
        by (auto simp: syncExistingFile_def Let_def tp_def keeps_refl)
    next
      case True
      show ?thesis
      proof (cases "adapter_readBinary P (path file)")
        case None
        with Some True assms counts show ?thesis
          by (auto simp: syncExistingFile_def Let_def seq_def readBinary_def tp_def keeps_refl)
      next
        case S: (Some content)
        obtain r2 s2 where w: "fs_writeFile tp content s = (r2, s2)"
          by (cases "fs_writeFile tp content s")
        from Some True S assms counts w have "s' = s2"
          by (auto simp: syncExistingFile_def Let_def seq_def readBinary_def tp_def
              split: sum.splits)
        then show ?thesis
          using fs_writeFile_fields [OF w] fs_writeFile_keeps [OF w] by auto
      qed
    qed
  qed
  then show "notices s' = notices s" "console s' = console s" "clock s' = clock s"
    "keeps (clock s) (tree s) (tree s')" by auto
qed

lemma syncExistingFile_Inr:
  assumes "syncExistingFile P targetDir file (n, u, c) s = (Inr (n', u', c'), s')"
  shows "n' = n + 1" "u \<le> u'" "c \<le> c'" "u' + c' + writes s = u + c + writes s'"
    "u' + c' \<le> u + c + 1"
    "stat_mtime file \<le> clock s \<Longrightarrow> fresh targetDir s' file"
proof -
  define tp where "tp = path_join targetDir (path file)"
  have "n' = n + 1 \<and> u \<le> u' \<and> c \<le> c' \<and> u' + c' + writes s = u + c + writes s' \<and>
        u' + c' \<le> u + c + 1 \<and> (stat_mtime file \<le> clock s \<longrightarrow> fresh targetDir s' file)"
  proof (cases "safeStat tp s")
    case None
    from None assms obtain content where rd: "adapter_readBinary P (path file) = Some content"
      by (cases "adapter_readBinary P (path file)")
        (auto simp: syncExistingFile_def Let_def seq_def readBinary_def tp_def)
    obtain r1 s1 where e: "ensureParentDirectory tp s = (r1, s1)"
      by (cases "ensureParentDirectory tp s")
    obtain r2 s2 where w: "fs_writeFile tp content s1 = (r2, s2)"
      by (cases "fs_writeFile tp content s1")
    from None rd assms e w have r: "r2 = Inr ()" "s' = s2" "n' = n + 1" "u' = u" "c' = c + 1"
      by (auto simp: syncExistingFile_def Let_def seq_def readBinary_def tp_def
          split: sum.splits)
    have c1: "writes s1 = writes s" "clock s1 = clock s"
      using ensureParentDirectory_fields [OF e] by (auto simp: writes_def)
    have c2: "writes s2 = writes s1 + 1"
      using fs_writeFile_fields [OF w] by (simp add: writes_def)
    have "lookup_node (tree s2) tp = Inr (File content (clock s))"
      using fs_writeFile_Inr(1) [of tp content s1 "()" s2] w r c1 by simp
    then have "stat_mtime file \<le> clock s \<longrightarrow> fresh targetDir s2 file"
      by (simp add: fresh_def safeStat_def fs_stat_def tp_def)
    with r c1 c2 show ?thesis by simp
  next
    case (Some targetStat)
    show ?thesis
    proof (cases "mtime targetStat < stat_mtime file")
      case False
      with Some assms show ?thesis
        by (auto simp: syncExistingFile_def Let_def tp_def fresh_def)
    next
      case True
      from Some True assms obtain content where rd: "adapter_readBinary P (path file) = Some content"
        by (cases "adapter_readBinary P (path file)")
          (auto simp: syncExistingFile_def Let_def seq_def readBinary_def tp_def)
      obtain r2 s2 where w: "fs_writeFile tp content s = (r2, s2)"
        by (cases "fs_writeFile tp content s")
      from Some True rd assms w have r: "r2 = Inr ()" "s' = s2" "n' = n + 1" "u' = u + 1" "c' = c"
        by (auto simp: syncExistingFile_def Let_def seq_def readBinary_def tp_def
            split: sum.splits)
      have c2: "writes s2 = writes s + 1"
        using fs_writeFile_fields [OF w] by (simp add: writes_def)
      have "lookup_node (tree s2) tp = Inr (File content (clock s))"
        using fs_writeFile_Inr(1) [of tp content s "()" s2] w r by simp
      then have "stat_mtime file \<le> clock s \<longrightarrow> fresh targetDir s2 file"
        by (simp add: fresh_def safeStat_def fs_stat_def tp_def)
      with r c2 show ?thesis by simp
    qed
  qed
  then show "n' = n + 1" "u \<le> u'" "c \<le> c'" "u' + c' + writes s = u + c + writes s'"
    "u' + c' \<le> u + c + 1"
    "stat_mtime file \<le> clock s \<Longrightarrow> fresh targetDir s' file" by auto
qed

lemma fresh_keeps:
  assumes "fresh targetDir s g" "keeps t (tree s) (tree s')" "stat_mtime g \<le> t"
  shows "fresh targetDir s' g"
proof -
  from assms(1) obtain x where x: "lookup_node (tree s) (path_join targetDir (path g)) = Inr x"
    "\<not> node_mtime x < stat_mtime g"
    by (auto simp: fresh_def safeStat_def fs_stat_def split: sum.splits)
  with assms(2) obtain x' where "lookup_node (tree s') (path_join targetDir (path g)) = Inr x'"
    "node_mtime x' = node_mtime x \<or> node_mtime x' = t"
    unfolding keeps_def by blast
  with x assms(3) show ?thesis
    by (auto simp: fresh_def safeStat_def fs_stat_def)
qed

lemma fresh_tree:
  "tree s' = tree s \<Longrightarrow> fresh targetDir s' f = fresh targetDir s f"
  by (simp add: fresh_def safeStat_def fs_stat_def)

lemma syncExistingLoop_fields:
  assumes "syncExistingLoop P targetDir files counts s = (res, s')"
  shows "notices s' = notices s \<and> console s' = console s \<and> clock s' = clock s \<and>
         keeps (clock s) (tree s) (tree s')"
  using assms
proof (induction files arbitrary: counts s)
  case Nil
  then show ?case by (auto simp: keeps_refl)
next
  case (Cons a files)
  obtain r1 s1 where b: "syncExistingFile P targetDir a counts s = (r1, s1)"
    by (cases "syncExistingFile P targetDir a counts s")
  note f = syncExistingFile_fields [OF b]
  show ?case
  proof (cases r1)
    case (Inl e)
    with Cons.prems b f show ?thesis by simp
  next
    case (Inr counts1)
    with Cons.prems b have "syncExistingLoop P targetDir files counts1 s1 = (res, s')" by simp
    from Cons.IH [OF this] f show ?thesis by (auto intro: keeps_trans)
  qed
qed

lemma syncExistingLoop_Inr:
  assumes "syncExistingLoop P targetDir files (n, u, c) s = (Inr (n', u', c'), s')"
  shows "n' = n + length files \<and> u' + c' + writes s = u + c + writes s' \<and>
         u' + c' \<le> u + c + length files \<and>
         (\<forall>f \<in> set files. stat_mtime f \<le> clock s \<longrightarrow> fresh targetDir s' f)"
  using assms
proof (induction files arbitrary: n u c s)
  case Nil
  then show ?case by simp
next
  case (Cons a files)
  obtain r1 s1 where b: "syncExistingFile P targetDir a (n, u, c) s = (r1, s1)"
    by (cases "syncExistingFile P targetDir a (n, u, c) s")
  with Cons.prems obtain n1 u1 c1 where r1: "r1 = Inr (n1, u1, c1)"
    by (cases r1) auto
  with Cons.prems b have l: "syncExistingLoop P targetDir files (n1, u1, c1) s1 = (Inr (n', u', c'), s')"
    by simp
  note i = syncExistingFile_Inr [OF b [unfolded r1]]
  note f = syncExistingFile_fields [OF b]
  note ih = Cons.IH [OF l]
  note lf = syncExistingLoop_fields [OF l]
  have "fresh targetDir s' a" if "stat_mtime a \<le> clock s"
    using fresh_keeps [of targetDir s1 a "clock s" s'] i(6) that lf f(3) by simp
  with ih i f show ?case by auto
qed

lemma syncExistingLoop_fresh:
  "\<forall>f \<in> set files. fresh targetDir s f \<Longrightarrow>
     syncExistingLoop P targetDir files (n, u, c) s = (Inr (n + length files, u, c), s)"
proof (induction files arbitrary: n)
  case Nil
  show ?case by simp
next
  case (Cons a files)
  then have "syncExistingFile P targetDir a (n, u, c) s = (Inr (n + 1, u, c), s)"
    by (auto simp: fresh_def syncExistingFile_def Let_def split: option.splits)
  with Cons show ?case by simp
qed

lemma syncExistingFiles_raised:
  assumes "syncExistingFiles P s = (Inl e, s')"
  shows "notices s' = notices s"
proof -
  define s1 where "s1 = console_put Log ''Syncing existing files ...'' s"
  obtain r2 s2 where l: "syncExistingLoop P (expandTargetPath P) (getFiles P) (0, 0, 0) s1 = (r2, s2)"
    by (cases "syncExistingLoop P (expandTargetPath P) (getFiles P) (0, 0, 0) s1")
  with assms have "s' = s2"
    by (auto simp: syncExistingFiles_def Let_def s1_def split: if_splits sum.splits)
  with syncExistingLoop_fields [OF l] show ?thesis by (simp add: s1_def)
qed






text \<open>
  The body of the loop on a file whose target exists and whose content can be read: one
  \<^verbatim>\<open>writeFile\<close> if and only if the target is older.
\<close>

lemma syncExistingFile_stale:
  assumes read: "adapter_readBinary P (path file) = Some content"
      and stat: "safeStat (path_join targetDir (path file)) s = Some targetStat"
  shows "(let targetPath = path_join targetDir (path file);
              r = syncExistingFile P targetDir file (fileCount, updated, created) s
          in calls (snd r) =
               calls s @ (if mtime targetStat < stat_mtime file
                          then [WriteFile targetPath content] else []) \<and>
             (mtime targetStat = stat_mtime file \<longrightarrow>
                r = (Inr (fileCount + 1, updated, created), s)) \<and>
             (\<not> mtime targetStat < stat_mtime file \<longrightarrow>
                r = (Inr (fileCount + 1, updated, created), s)) \<and>
             (mtime targetStat < stat_mtime file \<and> \<not> isDirectory targetStat \<longrightarrow>
                fst r = Inr (fileCount + 1, updated + 1, created) \<and>
                lookup_node (tree (snd r)) targetPath = Inr (File content (clock s))))"
proof (cases "mtime targetStat < stat_mtime file")
  case False
  with stat show ?thesis by (simp add: syncExistingFile_def Let_def)
next
  case True
  define tp where "tp = path_join targetDir (path file)"
  obtain res s' where w: "fs_writeFile tp content s = (res, s')"
    by (cases "fs_writeFile tp content s")
  have r: "syncExistingFile P targetDir file (fileCount, updated, created) s =
             (case res of Inl e \<Rightarrow> (Inl e, s')
                        | Inr u \<Rightarrow> (Inr (fileCount + 1, updated + 1, created), s'))"
    using True stat read w
    by (simp add: syncExistingFile_def Let_def seq_def readBinary_def tp_def split: sum.splits)
  have c: "calls s' = calls s @ [WriteFile tp content]"
    using fs_writeFile_fields [OF w] by simp
  have f: "res = Inr () \<and> lookup_node (tree s') tp = Inr (File content (clock s))"
    if "\<not> isDirectory targetStat"
  proof -
    from stat obtain n where n: "lookup_node (tree s) tp = Inr n" "isDirectory targetStat = is_Dir n"
      unfolding safeStat_Some tp_def by auto
    with that obtain b0 m0 where "n = File b0 m0" by (cases n) auto
    with n have "lookup_node (tree s) tp = Inr (File b0 m0)" by simp
    from fs_writeFile_existing [OF this, of content] w show ?thesis by auto
  qed
  show ?thesis
    unfolding Let_def tp_def [symmetric] r
    using True c f by (cases res) auto
qed

subsection \<open>The Created and Renamed handlers\<close>

lemma syncFileCreate_file:
  assumes kind: "adapter_stat P (path file) = Some TypeFile"
      and content: "adapter_readBinary P (path file) = Some content"
      and avail: "targetPathExists P s"
  shows "syncFileCreate P file s =
           (case ensureParentDirectory (path_join (expandTargetPath P) (path file))
                   (console_put Log (''Syncing new file: '' @ quote (path file)) s) of
              (Inl e, s2) \<Rightarrow> (Inl e, s2)
            | (Inr u, s2) \<Rightarrow>
                (case fs_writeFile (path_join (expandTargetPath P) (path file)) content s2 of
                   (Inl e, s3) \<Rightarrow> (Inl e, s3)
                 | (Inr u, s3) \<Rightarrow>
                     (Inr (), if notifyCreate (settings P)
                              then Notice (''Synced new file '' @ quote (name file)) s3
                              else s3)))"
  using kind content avail
  by (simp add: syncFileCreate_def ensureTargetPath_def seq_def readBinary_def Let_def
      split: prod.splits sum.splits)

lemma syncFileRename_available:
  assumes avail: "targetPathExists P s"
      and parent: "fst (ensureParentDirectory (path_join (expandTargetPath P) (path file)) s) = Inr ()"
  shows "(let oldTargetPath = path_join (expandTargetPath P) oldPath;
              newTargetPath = path_join (expandTargetPath P) (path file);
              s2 = snd (ensureParentDirectory newTargetPath s);
              r = syncFileRename P file oldPath s
          in fst r = Inr () \<and>
             calls (snd r) = calls s2 @ [Rename oldTargetPath newTargetPath] \<and>
             tree (snd r) = tree (snd (fs_rename oldTargetPath newTargetPath s2)) \<and>
             (fst (fs_rename oldTargetPath newTargetPath s2) = Inr () \<longrightarrow>
                notices (snd r) =
                  notices s @
                  (if notifyRename (settings P)
                   then [''Synced rename file '' @ quote (name file) @ '' (was '' @
                         quote oldPath @ '')'']
                   else []) \<and>
                (\<forall>m. (Err, m) \<notin> set (console (snd r)) - set (console s))) \<and>
             (fst (fs_rename oldTargetPath newTargetPath s2) \<noteq> Inr () \<longrightarrow>
                notices (snd r) = notices s @ [renameFailed oldTargetPath newTargetPath] \<and>
                last (console (snd r)) = (Err, renameFailed oldTargetPath newTargetPath) \<and>
                tree (snd r) = tree s2))"
proof -
  define old where "old = path_join (expandTargetPath P) oldPath"
  define new where "new = path_join (expandTargetPath P) (path file)"
  define s2 where "s2 = snd (ensureParentDirectory new s)"
  define msg where "msg = ''Syncing file rename from '' @ quote oldPath @ '' to '' @ quote (path file)"
  obtain r3 s3 where rn: "fs_rename old new s2 = (r3, s3)"
    by (cases "fs_rename old new s2")
  have e: "ensureParentDirectory new s = (Inr (), s2)"
    using parent by (simp add: new_def s2_def prod_eq_iff)
  have f2: "notices s2 = notices s" "console s2 = console s"
    using ensureParentDirectory_fields [OF e] by auto
  note f3 = fs_rename_fields [OF rn]
  have r: "syncFileRename P file oldPath s =
             (Inr (), case r3 of
                        Inr u \<Rightarrow> if notifyRename (settings P)
                                  then Notice (''Synced rename file '' @ quote (name file) @
                                               '' (was '' @ quote oldPath @ '')'')
                                         (console_put Log msg s3)
                                  else console_put Log msg s3
                      | Inl err \<Rightarrow> Notice (renameFailed old new)
                                    (console_put Err (renameFailed old new)
                                       (console_put Log msg s3)))"
    using avail e rn
    by (simp add: syncFileRename_def Let_def seq_def ensureParentDirectory_console_put
        fs_rename_console_put old_def [symmetric] new_def [symmetric] msg_def
        split: sum.splits)
  show ?thesis
    unfolding Let_def old_def [symmetric] new_def [symmetric] s2_def [symmetric] r rn
    using f2 f3 by (cases r3) auto
qed

subsection \<open>The concrete plugins and states\<close>

lemma expandTargetPath_vault1 [simp]: "expandTargetPath vault1 = ''/h/t''"
  by (simp add: expandTargetPath_def vault1_def DEFAULT_SETTINGS_def replace_def)

lemma path_resolve_h_t [simp]: "path_resolve ''/h/t'' = [''h'', ''t'']"
  by (simp add: path_resolve_def normalizeString_def normalizeStep_def)

lemma path_join_h_t_a_b [simp]: "path_join ''/h/t'' ''a/b.md'' = [''h'', ''t'', ''a'', ''b.md'']"
  by (simp add: path_join_def normalizeString_def normalizeStep_def)

lemma path_join_h_t_c_d [simp]: "path_join ''/h/t'' ''c/d.md'' = [''h'', ''t'', ''c'', ''d.md'']"
  by (simp add: path_join_def normalizeString_def normalizeStep_def)

lemma targetPathExists_empty_target [simp]: "targetPathExists vault1 (empty_target now)"
  by (simp add: targetPathExists_iff empty_target_def)

subsection \<open>The path resolver\<close>

lemma getSubstitution_plain:
  "CHR ''$'' \<notin> set r \<Longrightarrow> getSubstitution m f b r = r"
  by (induction m f b r rule: getSubstitution.induct) auto

lemma indexOf_Some:
  "indexOf pat str = Some (front, back) \<Longrightarrow> str = front @ pat @ back"
proof (induction str arbitrary: front)
  case Nil
  then show ?case by (auto split: if_splits)
next
  case (Cons c cs)
  show ?case
  proof (cases "prefix pat (c # cs)")
    case True
    with Cons.prems show ?thesis by (auto simp: prefix_def)
  next
    case False
    with Cons.prems obtain f' where "indexOf pat cs = Some (f', back)" "front = c # f'"
      by (auto split: option.splits)
    with Cons.IH show ?thesis by auto
  qed
qed

lemma expandTargetPath_unset:
  "env_HOME P = None \<Longrightarrow> expandTargetPath P = targetDirectory (settings P)"
  by (simp add: expandTargetPath_def)

lemma expandTargetPath_plain:
  assumes "env_HOME P = Some home" "CHR ''$'' \<notin> set home"
  shows "expandTargetPath P =
           (case indexOf ''$HOME'' (targetDirectory (settings P)) of
              None \<Rightarrow> targetDirectory (settings P)
            | Some (front, back) \<Rightarrow> front @ home @ back)"
  using assms
  by (simp add: expandTargetPath_def replace_def getSubstitution_plain split: option.splits)

section \<open>The claims\<close>

subsection \<open>C1: the unavailable target\<close>

text \<open>
  C1. When the resolved target root does not exist or is not a directory as the operation
  starts (or is the empty string, which \<^verbatim>\<open>stat\<close> refuses), each of the four event handlers
  and the reconciliation pass returns normally, having made no call to \<^verbatim>\<open>mkdir\<close>,
  \<^verbatim>\<open>writeFile\<close>, \<^verbatim>\<open>rm\<close> or \<^verbatim>\<open>rename\<close> and having left the tree as it was.
\<close>

theorem unavailable_target_noop:
  assumes "expandTargetPath P = [] \<or>
           (\<forall>n. lookup_node (tree s) (path_resolve (expandTargetPath P)) = Inr n \<longrightarrow> \<not> is_Dir n)"
  shows "noop s (syncFileCreate P file s) \<and> noop s (syncFileModify P file s) \<and>
         noop s (syncFileDelete P file s) \<and> noop s (syncFileRename P file oldPath s) \<and>
         noop s (syncExistingFiles P s)"
proof -
  from assms have "\<not> targetPathExists P s" by (auto simp: targetPathExists_iff)
  then show ?thesis
    by (simp add: noop_def syncFileCreate_def syncFileModify_def syncFileDelete_def
        syncFileRename_def syncExistingFiles_def Let_def)
qed

theorem unavailable_target_noop_witness:
  "lookup_node (tree no_target) (path_resolve (expandTargetPath vault1)) = Inl ENOENT \<and>
   noop no_target (syncFileCreate vault1 b_md no_target) \<and>
   noop no_target (syncFileModify vault1 b_md no_target) \<and>
   noop no_target (syncFileDelete vault1 b_md no_target) \<and>
   noop no_target (syncFileRename vault1 b_md ''a/old.md'' no_target) \<and>
   noop no_target (syncExistingFiles vault1 no_target)"
proof -
  have "\<forall>n. lookup_node (tree no_target) (path_resolve (expandTargetPath vault1)) = Inr n
          \<longrightarrow> \<not> is_Dir n"
    by (simp add: no_target_def)
  then show ?thesis
    using unavailable_target_noop [of vault1 no_target b_md "''a/old.md''"]
    by (simp add: no_target_def)
qed

subsection \<open>C2: staleness in the reconciliation pass\<close>




subsection \<open>C3: a rename that fails\<close>

text \<open>
  C3, as the claim has it: every Renamed event whose old target path does not exist is
  answered with a logged error and a failure notice, and the handler returns normally. Two
  events whose old target path \<^verbatim>\<open>/h/t/old.md\<close> does not exist show otherwise. With the
  regular file \<^verbatim>\<open>/h/t/a\<close> in the way of the new parent, \<^verbatim>\<open>ensureParentDirectory\<close>, which
  is called before the \<^verbatim>\<open>try\<close>, raises \<^verbatim>\<open>EEXIST\<close> and the handler passes it on. With the
  target root absent, the handler returns after the warning: no error is logged and no
  notice is shown.
\<close>

theorem syncFileRename_counterexample:
  "targetPathExists vault1 file_in_the_way \<and>
   lookup_node (tree file_in_the_way) (path_join (expandTargetPath vault1) ''old.md'') =
     Inl ENOENT \<and>
   syncFileRename vault1 b_md ''old.md'' file_in_the_way =
     (Inl (FsError EEXIST),
      file_in_the_way
        \<lparr>calls := [Mkdir [''h'', ''t'', ''a''] True],
         console := [(Log, ''Syncing file rename from '' @ quote ''old.md'' @ '' to '' @
                           quote ''a/b.md'')]\<rparr>) \<and>
   lookup_node (tree no_target) (path_join (expandTargetPath vault1) ''old.md'') = Inl ENOENT \<and>
   fst (syncFileRename vault1 b_md ''old.md'' no_target) = Inr () \<and>
   notices (snd (syncFileRename vault1 b_md ''old.md'' no_target)) = [] \<and>
   set (map fst (console (snd (syncFileRename vault1 b_md ''old.md'' no_target)))) = {Log, Warn}"
  by code_simp

text \<open>
  C3, amended. For a Renamed event handled with the target root available and the parent
  of the new target path materialised without error: if the old target path does not
  exist when the event arrives, or the \<^verbatim>\<open>rename\<close> fails for any other reason, the handler
  catches the failure, logs the error, shows the failure notice and returns normally; the
  tree is as the materialisation of the parent left it.
\<close>

theorem syncFileRename_failure_caught:
  assumes avail: "targetPathExists P s"
      and parent: "fst (ensureParentDirectory (path_join (expandTargetPath P) (path file)) s) = Inr ()"
      and fails: "(\<exists>e. lookup_node (tree s) (path_join (expandTargetPath P) oldPath) = Inl e) \<or>
                  fst (fs_rename (path_join (expandTargetPath P) oldPath)
                         (path_join (expandTargetPath P) (path file))
                         (snd (ensureParentDirectory
                                 (path_join (expandTargetPath P) (path file)) s))) \<noteq> Inr ()"
  shows "(let oldTargetPath = path_join (expandTargetPath P) oldPath;
              newTargetPath = path_join (expandTargetPath P) (path file);
              r = syncFileRename P file oldPath s
          in fst r = Inr () \<and>
             notices (snd r) = notices s @ [renameFailed oldTargetPath newTargetPath] \<and>
             last (console (snd r)) = (Err, renameFailed oldTargetPath newTargetPath) \<and>
             tree (snd r) = tree (snd (ensureParentDirectory newTargetPath s)))"
proof -
  define old where "old = path_join (expandTargetPath P) oldPath"
  define new where "new = path_join (expandTargetPath P) (path file)"
  define s2 where "s2 = snd (ensureParentDirectory new s)"
  have e: "ensureParentDirectory new s = (Inr (), s2)"
    using parent by (simp add: new_def s2_def prod_eq_iff)
  have "fst (fs_rename old new s2) \<noteq> Inr ()"
  proof (cases "\<exists>e. lookup_node (tree s) old = Inl e")
    case True
    then obtain e0 where "lookup_node (tree s) old = Inl e0" by blast
    from rename_fails_when_missing [OF this e] show ?thesis by auto
  next
    case False
    with fails show ?thesis by (simp add: old_def new_def s2_def)
  qed
  with syncFileRename_available [OF avail parent, of oldPath]
  show ?thesis
    unfolding Let_def old_def new_def s2_def by blast
qed

theorem syncFileRename_failure_caught_witness:
  "targetPathExists vault1 (empty_target 200) \<and>
   fst (ensureParentDirectory (path_join (expandTargetPath vault1) (path b_md))
          (empty_target 200)) = Inr () \<and>
   lookup_node (tree (empty_target 200)) (path_join (expandTargetPath vault1) ''a/old.md'') =
     Inl ENOENT \<and>
   fst (syncFileRename vault1 b_md ''a/old.md'' (empty_target 200)) = Inr () \<and>
   notices (snd (syncFileRename vault1 b_md ''a/old.md'' (empty_target 200))) =
     [renameFailed [''h'', ''t'', ''a'', ''old.md''] [''h'', ''t'', ''a'', ''b.md'']]"
proof -
  have p: "fst (ensureParentDirectory (path_join (expandTargetPath vault1) (path b_md))
                  (empty_target 200)) = Inr ()"
    by code_simp
  have l: "lookup_node (tree (empty_target 200))
             (path_join (expandTargetPath vault1) ''a/old.md'') = Inl ENOENT"
    by code_simp
  have j: "path_join (expandTargetPath vault1) ''a/old.md'' = [''h'', ''t'', ''a'', ''old.md'']"
    "path_join (expandTargetPath vault1) (path b_md) = [''h'', ''t'', ''a'', ''b.md'']"
    by code_simp+
  from l have d: "(\<exists>e. lookup_node (tree (empty_target 200))
                   (path_join (expandTargetPath vault1) ''a/old.md'') = Inl e) \<or>
              fst (fs_rename (path_join (expandTargetPath vault1) ''a/old.md'')
                     (path_join (expandTargetPath vault1) (path b_md))
                     (snd (ensureParentDirectory
                             (path_join (expandTargetPath vault1) (path b_md))
                             (empty_target 200)))) \<noteq> Inr ()"
    by blast
  have n: "notices (empty_target 200) = []"
    by (simp add: empty_target_def)
  from syncFileRename_failure_caught [OF targetPathExists_empty_target p d] p l j n
  show ?thesis by (simp add: Let_def)
qed

subsection \<open>C4: the same Created event twice\<close>

text \<open>
  C4, as the claim has it: for every file item and available target root, two applications
  of the handler leave the target file with the source content and the second raises no
  error. With a directory at the target path \<^verbatim>\<open>/h/t/a/b.md\<close>, \<^verbatim>\<open>writeFile\<close> is refused
  with \<^verbatim>\<open>EISDIR\<close> in the first application and again in the second, and the directory
  is still there.
\<close>

theorem syncFileCreate_twice_counterexample:
  "targetPathExists vault1 dir_in_the_way \<and>
   adapter_stat vault1 (path b_md) = Some TypeFile \<and>
   adapter_readBinary vault1 (path b_md) = Some ''x'' \<and>
   fst (syncFileCreate vault1 b_md dir_in_the_way) = Inl (FsError EISDIR) \<and>
   fst (syncFileCreate vault1 b_md (snd (syncFileCreate vault1 b_md dir_in_the_way))) =
     Inl (FsError EISDIR) \<and>
   lookup_node (tree (snd (syncFileCreate vault1 b_md
                             (snd (syncFileCreate vault1 b_md dir_in_the_way)))))
     (path_join (expandTargetPath vault1) (path b_md)) = Inr (Dir 0 [])"
  by code_simp

text \<open>
  C4, amended. For a file item whose content can be read, with the target root available:
  if the first application of the Created handler returns normally, the target file holds
  the source content, and a second application in succession (at any clock, the source
  unchanged) raises no error and leaves the target file with the source content.
\<close>

theorem syncFileCreate_twice:
  assumes kind: "adapter_stat P (path file) = Some TypeFile"
      and content: "adapter_readBinary P (path file) = Some content"
      and avail: "targetPathExists P s"
      and first: "syncFileCreate P file s = (Inr (), s1)"
  shows "(let targetPath = path_join (expandTargetPath P) (path file);
              r = syncFileCreate P file (s1\<lparr>clock := later\<rparr>)
          in lookup_node (tree s1) targetPath = Inr (File content (clock s)) \<and>
             fst r = Inr () \<and>
             lookup_node (tree (snd r)) targetPath = Inr (File content later))"
proof -
  define tp where "tp = path_join (expandTargetPath P) (path file)"
  define msg where "msg = ''Syncing new file: '' @ quote (path file)"
  define shown where "shown = ''Synced new file '' @ quote (name file)"
  obtain r2 s2 where e: "ensureParentDirectory tp (console_put Log msg s) = (r2, s2)"
    by (cases "ensureParentDirectory tp (console_put Log msg s)")
  obtain r3 s3 where w: "fs_writeFile tp content s2 = (r3, s3)"
    by (cases "fs_writeFile tp content s2")
  from first e w have r: "r2 = Inr ()" "r3 = Inr ()"
    and s1: "s1 = (if notifyCreate (settings P) then Notice shown s3 else s3)"
    unfolding syncFileCreate_file [OF kind content avail] tp_def [symmetric] msg_def [symmetric]
      shown_def [symmetric]
    by (auto split: sum.splits)
  have c2: "clock s2 = clock s"
    using ensureParentDirectory_fields [OF e] by simp
  have k2: "keeps (clock s) (tree s) (tree s2)"
    using ensureParentDirectory_keeps [OF e] by simp
  have l3: "lookup_node (tree s3) tp = Inr (File content (clock s))"
    and k3: "keeps (clock s) (tree s2) (tree s3)"
    using fs_writeFile_Inr [of tp content s2 "()" s3] w r c2 by simp_all
  from s1 have t1: "tree s1 = tree s3" by simp
  with l3 have l1: "lookup_node (tree s1) tp = Inr (File content (clock s))" by simp
  have "keeps (clock s) (tree s) (tree s1)"
    using k2 k3 t1 by (auto intro: keeps_trans)
  with avail have a1: "targetPathExists P s1" by (rule targetPathExists_keeps)
  define sx where "sx = s1\<lparr>clock := later\<rparr>"
  have tx: "tree sx = tree s1" "clock sx = later" by (simp_all add: sx_def)
  have ax: "targetPathExists P sx"
    using a1 targetPathExists_tree [of sx s1 P] tx by simp
  define lx where "lx = console_put Log msg sx"
  have tl: "tree lx = tree s1" "clock lx = later" using tx by (simp_all add: lx_def)
  have "tp \<noteq> []"
  proof
    assume "tp = []"
    with l1 have "tree s1 = File content (clock s)" by simp
    with a1 show False
      by (auto simp: targetPathExists_iff elim!: lookup_node.elims)
  qed
  then obtain q c where qc: "tp = q @ [c]" by (cases tp rule: rev_cases) auto
  with l1 tl obtain y where "lookup_node (tree lx) q = Inr y" "is_Dir y"
    using lookup_node_child_is_Dir [of "tree s1" q c "[]"] by auto
  then have ex: "ensureParentDirectory tp lx = (Inr (), lx)"
    using ensureParentDirectory_Dir [of lx tp y] qc by (simp add: path_dirname_def)
  from l1 tl have "lookup_node (tree lx) tp = Inr (File content (clock s))" by simp
  from fs_writeFile_existing [OF this, of content]
  obtain s5 where wx: "fs_writeFile tp content lx = (Inr (), s5)"
    and l5: "lookup_node (tree s5) tp = Inr (File content later)"
    using tl by auto
  have "syncFileCreate P file sx =
          (Inr (), if notifyCreate (settings P) then Notice shown s5 else s5)"
    unfolding syncFileCreate_file [OF kind content ax] tp_def [symmetric] msg_def [symmetric]
      shown_def [symmetric] lx_def [symmetric]
    using ex wx by simp
  with l1 l5 show ?thesis
    unfolding Let_def tp_def [symmetric] sx_def [symmetric] by simp
qed

theorem syncFileCreate_twice_witness:
  "adapter_stat vault1 (path b_md) = Some TypeFile \<and>
   adapter_readBinary vault1 (path b_md) = Some ''x'' \<and>
   targetPathExists vault1 (empty_target 200) \<and>
   fst (syncFileCreate vault1 b_md (empty_target 200)) = Inr () \<and>
   lookup_node (tree (snd (syncFileCreate vault1 b_md (empty_target 200))))
     [''h'', ''t'', ''a'', ''b.md''] = Inr (File ''x'' 200) \<and>
   fst (syncFileCreate vault1 b_md
          ((snd (syncFileCreate vault1 b_md (empty_target 200)))\<lparr>clock := 300\<rparr>)) = Inr () \<and>
   lookup_node
     (tree (snd (syncFileCreate vault1 b_md
                   ((snd (syncFileCreate vault1 b_md (empty_target 200)))\<lparr>clock := 300\<rparr>))))
     [''h'', ''t'', ''a'', ''b.md''] = Inr (File ''x'' 300)"
proof -
  have k: "adapter_stat vault1 (path b_md) = Some TypeFile"
    and c: "adapter_readBinary vault1 (path b_md) = Some ''x''"
    by (simp_all add: vault1_def b_md_def)
  have f: "fst (syncFileCreate vault1 b_md (empty_target 200)) = Inr ()"
    by code_simp
  then have e: "syncFileCreate vault1 b_md (empty_target 200) =
               (Inr (), snd (syncFileCreate vault1 b_md (empty_target 200)))"
    by (simp add: prod_eq_iff)
  have j: "path_join (expandTargetPath vault1) (path b_md) = [''h'', ''t'', ''a'', ''b.md'']"
    by code_simp
  have n: "clock (empty_target 200) = 200" by (simp add: empty_target_def)
  from syncFileCreate_twice [OF k c targetPathExists_empty_target e, of 300] k c f j n
  show ?thesis by (simp add: Let_def)
qed

subsection \<open>C5: two reconciliation passes in a row\<close>

text \<open>
  C5, as the claim has it: for every source tree the second pass creates and updates
  nothing. It does not hold for a source file whose modification time (100) is later than
  the clock (50) at which the first pass wrote its copy: the copy is stamped 50, so the
  second pass finds it stale and writes it again.
\<close>

theorem syncExistingFiles_twice_counterexample:
  "targetPathExists vault1 (empty_target 50) \<and>
   fst (syncExistingFiles vault1 (empty_target 50)) = Inr () \<and>
   notices (snd (syncExistingFiles vault1 (empty_target 50))) =
     [''Synced 1 files; 1 created, 0 updated.''] \<and>
   notices (snd (syncExistingFiles vault1 (snd (syncExistingFiles vault1 (empty_target 50))))) =
     [''Synced 1 files; 1 created, 0 updated.'', ''Synced 1 files; 0 created, 1 updated.'']"
  by code_simp

text \<open>
  C5, amended. With the target root available, if no source file has a modification time
  later than the clock of the first pass and the first pass returns normally, then a second
  pass (at any clock, with nothing changed in between) gets through the listing with
  zero files created and zero updated: it makes no call to \<^verbatim>\<open>fs\<close>, leaves the tree as it
  is and reports the summary with both counts 0.
\<close>

theorem syncExistingFiles_twice:
  assumes avail: "targetPathExists P s"
      and nofuture: "\<forall>f \<in> set (getFiles P). stat_mtime f \<le> clock s"
      and first: "syncExistingFiles P s = (Inr (), s1)"
  shows "syncExistingLoop P (expandTargetPath P) (getFiles P) (0, 0, 0)
           (console_put Log ''Syncing existing files ...'' (s1\<lparr>clock := later\<rparr>)) =
           (Inr (length (getFiles P), 0, 0),
            console_put Log ''Syncing existing files ...'' (s1\<lparr>clock := later\<rparr>)) \<and>
         fst (syncExistingFiles P (s1\<lparr>clock := later\<rparr>)) = Inr () \<and>
         tree (snd (syncExistingFiles P (s1\<lparr>clock := later\<rparr>))) = tree s1 \<and>
         calls (snd (syncExistingFiles P (s1\<lparr>clock := later\<rparr>))) = calls s1 \<and>
         notices (snd (syncExistingFiles P (s1\<lparr>clock := later\<rparr>))) =
           notices s1 @ [summary (length (getFiles P)) 0 0]"
proof -
  define s0 where "s0 = console_put Log ''Syncing existing files ...'' s"
  define sb where "sb = console_put Log ''Syncing existing files ...'' (s1\<lparr>clock := later\<rparr>)"
  obtain r2 s2 where l: "syncExistingLoop P (expandTargetPath P) (getFiles P) (0, 0, 0) s0 = (r2, s2)"
    by (cases "syncExistingLoop P (expandTargetPath P) (getFiles P) (0, 0, 0) s0")
  with avail first obtain n u c where r2: "r2 = Inr (n, u, c)"
    by (cases r2) (auto simp: syncExistingFiles_def Let_def s0_def)
  from avail first l r2 have s1: "s1 = Notice (summary n c u) (console_put Log (summary n c u) s2)"
    by (auto simp: syncExistingFiles_def Let_def s0_def)
  then have t: "tree sb = tree s2" by (simp add: sb_def)
  from syncExistingLoop_Inr [OF l [unfolded r2]] nofuture
  have "\<forall>f \<in> set (getFiles P). fresh (expandTargetPath P) s2 f"
    by (simp add: s0_def)
  then have fr: "\<forall>f \<in> set (getFiles P). fresh (expandTargetPath P) sb f"
    using fresh_tree [OF t] by simp
  have loop: "syncExistingLoop P (expandTargetPath P) (getFiles P) (0, 0, 0) sb =
          (Inr (length (getFiles P), 0, 0), sb)"
    using syncExistingLoop_fresh [OF fr, of P 0 0 0] by simp
  have "keeps (clock s0) (tree s0) (tree s2)"
    using syncExistingLoop_fields [OF l] by simp
  then have "targetPathExists P s2"
    using targetPathExists_keeps [of P s0 "clock s0" s2] avail by (simp add: s0_def)
  then have av: "targetPathExists P (s1\<lparr>clock := later\<rparr>)"
    using targetPathExists_tree [of "s1\<lparr>clock := later\<rparr>" s2 P] s1 by simp
  have "syncExistingFiles P (s1\<lparr>clock := later\<rparr>) =
          (Inr (), Notice (summary (length (getFiles P)) 0 0)
                     (console_put Log (summary (length (getFiles P)) 0 0) sb))"
    using av loop by (simp add: syncExistingFiles_def Let_def sb_def)
  with loop show ?thesis by (simp add: sb_def)
qed

theorem syncExistingFiles_twice_witness:
  "targetPathExists vault1 (empty_target 200) \<and>
   getFiles vault1 = [b_md] \<and> stat_mtime b_md = 100 \<and> clock (empty_target 200) = 200 \<and>
   fst (syncExistingFiles vault1 (empty_target 200)) = Inr () \<and>
   notices (snd (syncExistingFiles vault1
              ((snd (syncExistingFiles vault1 (empty_target 200)))\<lparr>clock := 300\<rparr>))) =
     [''Synced 1 files; 1 created, 0 updated.'', ''Synced 1 files; 0 created, 0 updated.''] \<and>
   calls (snd (syncExistingFiles vault1
              ((snd (syncExistingFiles vault1 (empty_target 200)))\<lparr>clock := 300\<rparr>))) =
     calls (snd (syncExistingFiles vault1 (empty_target 200)))"
proof -
  have n: "\<forall>f \<in> set (getFiles vault1). stat_mtime f \<le> clock (empty_target 200)"
    by (simp add: vault1_def b_md_def empty_target_def)
  have f: "fst (syncExistingFiles vault1 (empty_target 200)) = Inr ()"
    by code_simp
  then have e: "syncExistingFiles vault1 (empty_target 200) =
               (Inr (), snd (syncExistingFiles vault1 (empty_target 200)))"
    by (simp add: prod_eq_iff)
  have m: "notices (snd (syncExistingFiles vault1 (empty_target 200))) =
             [''Synced 1 files; 1 created, 0 updated.'']"
    by code_simp
  have l: "summary (length (getFiles vault1)) 0 0 = ''Synced 1 files; 0 created, 0 updated.''"
    by code_simp
  have g: "getFiles vault1 = [b_md]" "stat_mtime b_md = 100" "clock (empty_target 200) = 200"
    by (simp_all add: vault1_def b_md_def empty_target_def)
  from syncExistingFiles_twice [OF targetPathExists_empty_target n e, of 300] g f m l
  show ?thesis by simp
qed

subsection \<open>C6: Created events of unknown kind\<close>




subsection \<open>C7: the parent directory\<close>

text \<open>
  C7, as the claim has it: a parent that exists but is not a directory is created. It is not:
  with the regular file \<^verbatim>\<open>/h/t/a\<close> in the way, the recursive \<^verbatim>\<open>mkdir\<close> of the parent of
  \<^verbatim>\<open>/h/t/a/b.md\<close> is refused with \<^verbatim>\<open>EEXIST\<close>, and the exception leaves the method.
\<close>

theorem ensureParentDirectory_counterexample:
  "lookup_node (tree file_in_the_way) (path_dirname [''h'', ''t'', ''a'', ''b.md'']) =
     Inr (File ''old'' 0) \<and>
   ensureParentDirectory [''h'', ''t'', ''a'', ''b.md''] file_in_the_way =
     (Inl (FsError EEXIST),
      file_in_the_way\<lparr>calls := [Mkdir [''h'', ''t'', ''a''] True]\<rparr>)"
  by (simp add: ensureParentDirectory_def file_in_the_way_def path_dirname_def safeStat_def
      fs_stat_def fs_mkdir_def fs_call_def)

text \<open>
  C7, amended. \<^verbatim>\<open>ensureParentDirectory\<close> looks at the parent of the path. A parent that is
  a directory: nothing is done. A missing parent below existing directories: one recursive
  \<^verbatim>\<open>mkdir\<close>, after which the parent and all its ancestors are directories and every
  earlier entry is still there. A parent that is a regular file: the recursive \<^verbatim>\<open>mkdir\<close>
  fails with \<^verbatim>\<open>EEXIST\<close>; a regular file further up: it fails with \<^verbatim>\<open>ENOTDIR\<close>; in both
  cases the tree is unchanged and the error is raised.
\<close>

theorem ensureParentDirectory_cases:
  "(case lookup_node (tree s) (path_dirname targetPath) of
      Inr (Dir mt es) \<Rightarrow> ensureParentDirectory targetPath s = (Inr (), s)
    | Inr (File b mt) \<Rightarrow>
        ensureParentDirectory targetPath s =
          (Inl (FsError EEXIST), s\<lparr>calls := calls s @ [Mkdir (path_dirname targetPath) True]\<rparr>)
    | Inl ENOENT \<Rightarrow>
        (\<exists>s'. ensureParentDirectory targetPath s = (Inr (), s') \<and>
              calls s' = calls s @ [Mkdir (path_dirname targetPath) True] \<and>
              keeps (clock s) (tree s) (tree s') \<and>
              (\<forall>q. prefix q (path_dirname targetPath) \<longrightarrow>
                  (\<exists>x. lookup_node (tree s') q = Inr x \<and> is_Dir x)))
    | Inl e \<Rightarrow>
        ensureParentDirectory targetPath s =
          (Inl (FsError ENOTDIR), s\<lparr>calls := calls s @ [Mkdir (path_dirname targetPath) True]\<rparr>))"
proof (cases "lookup_node (tree s) (path_dirname targetPath)")
  case (Inr x)
  show ?thesis
  proof (cases x)
    case (Dir mt es)
    with Inr show ?thesis by (simp add: ensureParentDirectory_Dir)
  next
    case (File b mt)
    with Inr show ?thesis
      by (simp add: ensureParentDirectory_else fs_mkdir_def fs_call_def mkdirp_node_File)
  qed
next
  case (Inl e)
  then consider "e = ENOENT" | "e = ENOTDIR" using lookup_node_errno by blast
  then show ?thesis
  proof cases
    case 1
    with Inl obtain n' where n': "mkdirp_node (clock s) (tree s) (path_dirname targetPath) = Inr n'"
      using mkdirp_node_ENOENT by blast
    let ?s' = "s\<lparr>calls := calls s @ [Mkdir (path_dirname targetPath) True], tree := n'\<rparr>"
    have e: "ensureParentDirectory targetPath s = (Inr (), ?s')"
      using Inl n' by (simp add: ensureParentDirectory_else fs_mkdir_def fs_call_def)
    have k: "keeps (clock s) (tree s) (tree ?s')"
      using n' by (simp add: mkdirp_node_keeps)
    have d: "\<exists>x. lookup_node (tree ?s') q = Inr x \<and> is_Dir x"
      if "prefix q (path_dirname targetPath)" for q
    proof -
      from n' obtain y where y: "lookup_node n' (path_dirname targetPath) = Inr y" "is_Dir y"
        using mkdirp_node_lookup by blast
      from that obtain r where r: "path_dirname targetPath = q @ r" by (auto simp: prefix_def)
      show ?thesis
      proof (cases r)
        case Nil
        with r y show ?thesis by simp
      next
        case (Cons c cs)
        with r y show ?thesis using lookup_node_child_is_Dir [of n' q c cs y] by simp
      qed
    qed
    from e k d show ?thesis using Inl 1 by simp
  next
    case 2
    with Inl show ?thesis
      by (simp add: ensureParentDirectory_else fs_mkdir_def fs_call_def mkdirp_node_ENOTDIR)
  qed
qed

theorem ensureParentDirectory_cases_witness:
  "ensureParentDirectory [''h'', ''t'', ''b.md''] (empty_target 200) = (Inr (), empty_target 200) \<and>
   (\<exists>s'. ensureParentDirectory [''h'', ''t'', ''a'', ''b.md''] (empty_target 200) = (Inr (), s') \<and>
         calls s' = [Mkdir [''h'', ''t'', ''a''] True] \<and>
         (\<exists>x. lookup_node (tree s') [''h'', ''t'', ''a''] = Inr x \<and> is_Dir x))"
proof -
  have 1: "ensureParentDirectory [''h'', ''t'', ''b.md''] (empty_target 200) =
             (Inr (), empty_target 200)"
    using ensureParentDirectory_cases [where s = "empty_target 200" and targetPath = "[''h'', ''t'', ''b.md'']"]
    by (simp add: empty_target_def path_dirname_def)
  have 2: "\<exists>s'. ensureParentDirectory [''h'', ''t'', ''a'', ''b.md''] (empty_target 200) = (Inr (), s') \<and>
         calls s' = [Mkdir [''h'', ''t'', ''a''] True] \<and>
         (\<exists>x. lookup_node (tree s') [''h'', ''t'', ''a''] = Inr x \<and> is_Dir x)"
    using ensureParentDirectory_cases [where s = "empty_target 200" and targetPath = "[''h'', ''t'', ''a'', ''b.md'']"]
    by (fastforce simp add: empty_target_def path_dirname_def)
  from 1 2 show ?thesis by blast
qed

subsection \<open>C8: the path resolver\<close>

text \<open>
  C8. The resolver puts the value of \<^verbatim>\<open>HOME\<close> in place of the placeholder. The code passes
  that value as the replacement of \<^verbatim>\<open>String.prototype.replace\<close>, which reads it as a
  template: with the default settings and \<^verbatim>\<open>HOME=/Users/a$$b\<close> the result names the
  directory \<^verbatim>\<open>/Users/a$b\<close>, not the home directory.
\<close>

theorem expandTargetPath_dollar_home:
  "expandTargetPath dollar_home = ''/Users/a$b/cs/test-notes'' \<and>
   expandTargetPath dollar_home \<noteq> ''/Users/a$$b/cs/test-notes''"
  by (simp add: expandTargetPath_def dollar_home_def DEFAULT_SETTINGS_def replace_def)

subsection \<open>C9: the summary of the reconciliation pass\<close>



subsection \<open>C10: the notice of a failed rename\<close>

text \<open>
  C10. With the target root available and the parent of the new target path materialised:
  when the \<^verbatim>\<open>rename\<close> fails, the failure notice is shown whether \<^verbatim>\<open>notifyRename\<close> is on or
  off; when it succeeds, the success notice is shown with \<^verbatim>\<open>notifyRename\<close> on and nothing
  is shown with it off.
\<close>

theorem rename_failure_notice_unconditional:
  assumes avail: "targetPathExists P s"
      and parent: "fst (ensureParentDirectory (path_join (expandTargetPath P) (path file)) s) = Inr ()"
  shows "(let oldTargetPath = path_join (expandTargetPath P) oldPath;
              newTargetPath = path_join (expandTargetPath P) (path file);
              s2 = snd (ensureParentDirectory newTargetPath s);
              notified = (\<lambda>b. notices (snd (syncFileRename (withNotifyRename b P) file oldPath s)))
          in (fst (fs_rename oldTargetPath newTargetPath s2) \<noteq> Inr () \<longrightarrow>
                notified True = notices s @ [renameFailed oldTargetPath newTargetPath] \<and>
                notified False = notices s @ [renameFailed oldTargetPath newTargetPath]) \<and>
             (fst (fs_rename oldTargetPath newTargetPath s2) = Inr () \<longrightarrow>
                notified True =
                  notices s @ [''Synced rename file '' @ quote (name file) @ '' (was '' @
                               quote oldPath @ '')''] \<and>
                notified False = notices s))"
proof -
  have a: "targetPathExists (withNotifyRename b P) s" for b
    using avail by (simp add: withNotifyRename_def)
  have p: "fst (ensureParentDirectory
                  (path_join (expandTargetPath (withNotifyRename b P)) (path file)) s) = Inr ()" for b
    using parent by (simp add: withNotifyRename_def)
  from syncFileRename_available [OF a p, of True oldPath]
       syncFileRename_available [OF a p, of False oldPath]
  show ?thesis
    by (simp add: Let_def withNotifyRename_def)
qed

theorem rename_failure_notice_unconditional_witness:
  "targetPathExists vault1 (empty_target 200) \<and>
   notices (snd (syncFileRename (withNotifyRename True vault1) b_md ''a/old.md''
                   (empty_target 200))) =
     [renameFailed [''h'', ''t'', ''a'', ''old.md''] [''h'', ''t'', ''a'', ''b.md'']] \<and>
   notices (snd (syncFileRename (withNotifyRename False vault1) b_md ''a/old.md''
                   (empty_target 200))) =
     [renameFailed [''h'', ''t'', ''a'', ''old.md''] [''h'', ''t'', ''a'', ''b.md'']] \<and>
   targetPathExists vault1 (mirrored 50 200) \<and>
   notices (snd (syncFileRename (withNotifyRename True vault1) c_md ''a/b.md''
                   (mirrored 50 200))) =
     [''Synced rename file '' @ quote ''c.md'' @ '' (was '' @ quote ''a/b.md'' @ '')''] \<and>
   notices (snd (syncFileRename (withNotifyRename False vault1) c_md ''a/b.md''
                   (mirrored 50 200))) = []"
proof -
  have a1: "targetPathExists vault1 (empty_target 200)" by simp
  have a2: "targetPathExists vault1 (mirrored 50 200)"
    by (simp add: targetPathExists_iff mirrored_def)
  have p1: "fst (ensureParentDirectory (path_join (expandTargetPath vault1) (path b_md))
                   (empty_target 200)) = Inr ()"
    by code_simp
  have p2: "fst (ensureParentDirectory (path_join (expandTargetPath vault1) (path c_md))
                   (mirrored 50 200)) = Inr ()"
    by code_simp
  have j: "path_join (expandTargetPath vault1) ''a/old.md'' = [''h'', ''t'', ''a'', ''old.md'']"
    "path_join (expandTargetPath vault1) (path b_md) = [''h'', ''t'', ''a'', ''b.md'']"
    by code_simp+
  have r1: "fst (fs_rename (path_join (expandTargetPath vault1) ''a/old.md'')
                   (path_join (expandTargetPath vault1) (path b_md))
                   (snd (ensureParentDirectory
                           (path_join (expandTargetPath vault1) (path b_md))
                           (empty_target 200)))) = Inl (FsError ENOENT)"
    by code_simp
  have r2: "fst (fs_rename (path_join (expandTargetPath vault1) ''a/b.md'')
                   (path_join (expandTargetPath vault1) (path c_md))
                   (snd (ensureParentDirectory
                           (path_join (expandTargetPath vault1) (path c_md))
                           (mirrored 50 200)))) = Inr ()"
    by code_simp
  have n: "notices (empty_target 200) = []" "notices (mirrored 50 200) = []"
    "name c_md = ''c.md''"
    by (simp_all add: empty_target_def mirrored_def c_md_def)
  from rename_failure_notice_unconditional [OF a1 p1, of "''a/old.md''"]
       rename_failure_notice_unconditional [OF a2 p2, of "''a/b.md''"]
       a1 a2 r1 r2 j n
  show ?thesis by (simp add: Let_def)
qed

end
